theory Spec2Isabelle
  imports Complex_Main
begin

text \<open>
  \<^verbatim>\<open>app.py\<close> checks the strength of a welded branch joint of a pipe after RD 10-249-98. It
  interpolates the allowable stress of the steel 12Kh1MF in a table over the temperature
  and the operating hours, and from it derives in eight steps the reduced stress at the
  opening, the safety factor and the verdict. This theory embeds the table, the function
  \<^verbatim>\<open>interpolate_stress\<close> and the calculation that the button starts, and proves the
  properties that the specification states about them.
\<close>

section \<open>Floating-point values\<close>

text \<open>
  The calculation of \<^verbatim>\<open>app.py\<close> runs on Python floats and on \<^verbatim>\<open>numpy.float64\<close>
  values. Rounding and overflow are abstracted: a finite value is an exact real. What is
  kept is what decides the control flow and the failure behaviour: the signed zeros, the
  infinities and NaN, with the IEEE-754 rules for them. \<open>Fin 0\<close> is \<open>+0.0\<close> and \<open>NegZero\<close>
  is \<open>-0.0\<close>.
\<close>

datatype npfloat = Fin real | NegZero | PInf | NInf | NaN

datatype py_error = ZeroDivisionError | KeyError | IndexError

definition is_inf :: "npfloat \<Rightarrow> bool" where
  "is_inf x = (x = PInf \<or> x = NInf)"

definition is_zero :: "npfloat \<Rightarrow> bool" where
  "is_zero x = (x = Fin 0 \<or> x = NegZero)"

fun signbit :: "npfloat \<Rightarrow> bool" where
  "signbit (Fin r) = (r < 0)"
| "signbit NegZero = True"
| "signbit PInf = False"
| "signbit NInf = True"
| "signbit NaN = False"

fun fval :: "npfloat \<Rightarrow> real" where
  "fval (Fin r) = r"
| "fval NegZero = 0"
| "fval PInf = 0"
| "fval NInf = 0"
| "fval NaN = 0"

definition signed_zero :: "bool \<Rightarrow> npfloat" where
  "signed_zero neg = (if neg then NegZero else Fin 0)"

definition signed_inf :: "bool \<Rightarrow> npfloat" where
  "signed_inf neg = (if neg then NInf else PInf)"

fun fneg :: "npfloat \<Rightarrow> npfloat" where
  "fneg (Fin r) = (if r = 0 then NegZero else Fin (- r))"
| "fneg NegZero = Fin 0"
| "fneg PInf = NInf"
| "fneg NInf = PInf"
| "fneg NaN = NaN"

definition fadd :: "npfloat \<Rightarrow> npfloat \<Rightarrow> npfloat" where
  "fadd x y =
     (if x = NaN \<or> y = NaN then NaN
      else if is_inf x \<and> is_inf y then (if x = y then x else NaN)
      else if is_inf x then x
      else if is_inf y then y
      else if is_zero x \<and> is_zero y then signed_zero (signbit x \<and> signbit y)
      else Fin (fval x + fval y))"

definition fsub :: "npfloat \<Rightarrow> npfloat \<Rightarrow> npfloat" where
  "fsub x y = fadd x (fneg y)"

definition fmul :: "npfloat \<Rightarrow> npfloat \<Rightarrow> npfloat" where
  "fmul x y =
     (if x = NaN \<or> y = NaN then NaN
      else if (is_inf x \<and> is_zero y) \<or> (is_zero x \<and> is_inf y) then NaN
      else if is_inf x \<or> is_inf y then signed_inf (signbit x \<noteq> signbit y)
      else if is_zero x \<or> is_zero y then signed_zero (signbit x \<noteq> signbit y)
      else Fin (fval x * fval y))"

text \<open>Division of numpy scalars: a zero divisor gives an infinity or NaN (with a warning),
  never an exception.\<close>

definition fdiv :: "npfloat \<Rightarrow> npfloat \<Rightarrow> npfloat" where
  "fdiv x y =
     (if x = NaN \<or> y = NaN then NaN
      else if (is_inf x \<and> is_inf y) \<or> (is_zero x \<and> is_zero y) then NaN
      else if is_inf x \<or> is_zero y then signed_inf (signbit x \<noteq> signbit y)
      else if is_inf y \<or> is_zero x then signed_zero (signbit x \<noteq> signbit y)
      else Fin (fval x / fval y))"

text \<open>Division of two Python floats: a zero divisor raises.\<close>

definition pydiv :: "npfloat \<Rightarrow> npfloat \<Rightarrow> py_error + npfloat" where
  "pydiv x y = (if is_zero y then Inl ZeroDivisionError else Inr (fdiv x y))"

text \<open>\<^verbatim>\<open>np.sqrt\<close>: NaN on a negative argument (with a warning), \<open>-0.0\<close> on \<open>-0.0\<close>.\<close>

fun fsqrt :: "npfloat \<Rightarrow> npfloat" where
  "fsqrt (Fin r) = (if r < 0 then NaN else Fin (sqrt r))"
| "fsqrt NegZero = NegZero"
| "fsqrt PInf = PInf"
| "fsqrt NInf = NaN"
| "fsqrt NaN = NaN"

text \<open>Comparisons: every ordered comparison with NaN is false, \<open>!=\<close> with NaN is true,
  and the two zeros are equal.\<close>

definition fle :: "npfloat \<Rightarrow> npfloat \<Rightarrow> bool" where
  "fle x y =
     (x \<noteq> NaN \<and> y \<noteq> NaN \<and>
      (x = NInf \<or> y = PInf \<or> (\<not> is_inf x \<and> \<not> is_inf y \<and> fval x \<le> fval y)))"

definition fne :: "npfloat \<Rightarrow> npfloat \<Rightarrow> bool" where
  "fne x y =
     (x = NaN \<or> y = NaN \<or>
      (if is_inf x \<or> is_inf y then x \<noteq> y else fval x \<noteq> fval y))"

text \<open>\<open>represents x r\<close>: the float \<open>x\<close> is finite and its value is the real \<open>r\<close>.\<close>

definition represents :: "npfloat \<Rightarrow> real \<Rightarrow> bool" where
  "represents x r = (x = Fin r \<or> (x = NegZero \<and> r = 0))"


section \<open>The table of allowable stresses\<close>

type_synonym point = "real \<times> real"

definition temperature_ranges :: "real list" where
  "temperature_ranges =
     [20, 250, 300, 350, 400, 420, 440, 450, 460, 480, 500, 510, 520, 530, 540, 550, 560, 570,
      580, 590, 600, 610, 620]"

text \<open>The dictionary \<^verbatim>\<open>stress_data_12x1mf\<close>: operating hours to the column of
  stresses, one entry per temperature, \<open>None\<close> where the standard gives no value.\<close>

type_synonym stress_data = "real \<rightharpoonup> real option list"

definition stress_data_12x1mf :: stress_data where
  "stress_data_12x1mf =
     [10000 \<mapsto>
        [None, None, None, None, None, None, None, None, None, Some 133, Some 130, Some 120,
         Some 112, Some 100, Some 88, Some 80, Some 72, Some 65, Some 59, Some 53, Some 47,
         Some 41, Some 35],
      100000 \<mapsto>
        [Some 173, Some 166, Some 159, Some 152, Some 145, Some 142, Some 139, Some 138,
         Some 136, Some 133, Some 113, Some 101, Some 90, Some 81, Some 73, Some 66, Some 59,
         Some 53, Some 47, Some 41, Some 37, Some 33, None],
      200000 \<mapsto>
        [None, None, None, None, None, None, None, Some 138, Some 136, Some 120, Some 96,
         Some 86, Some 77, Some 69, Some 62, Some 56, Some 50, Some 44, Some 39, Some 35,
         Some 31, None, None],
      300000 \<mapsto>
        [None, None, None, None, None, None, None, Some 138, Some 130, Some 107, Some 88,
         Some 79, Some 72, Some 65, Some 58, Some 52, Some 46, Some 41, Some 36, Some 32,
         Some 29, None, None],
      400000 \<mapsto>
        [None, None, None, None, None, None, None, Some 138, Some 125, Some 103, Some 83,
         Some 76, Some 66, Some 59, Some 53, Some 48, Some 43, Some 38, Some 34, Some 30,
         Some 27, None, None]]"


section \<open>\<^verbatim>\<open>interpolate_stress\<close>\<close>

text \<open>
  \<^verbatim>\<open>scipy.interpolate.griddata\<close> is library code. \<^verbatim>\<open>interpolate_stress\<close> takes it as the
  parameter \<open>griddata\<close>: a function of the points, the values and the query point whose
  outcome is an exception, the fill value NaN, or a number.
\<close>

datatype gd_result = GdRaise | GdNaN | GdValue real

type_synonym griddata_fn = "point list \<Rightarrow> real list \<Rightarrow> point \<Rightarrow> gd_result"

text \<open>The hours of the inner loop are the literal list of the source.\<close>

definition hours_keys :: "real list" where
  "hours_keys = [10000, 100000, 200000, 300000, 400000]"

text \<open>\<^verbatim>\<open>stress_data_12x1mf[hours][temp_idx]\<close>, with the two ways it can raise.\<close>

definition cell :: "stress_data \<Rightarrow> real \<Rightarrow> nat \<Rightarrow> py_error + real option" where
  "cell sd hours temp_idx =
     (case sd hours of
        None \<Rightarrow> Inl KeyError
      | Some col \<Rightarrow> if temp_idx < length col then Inr (col ! temp_idx) else Inl IndexError)"

text \<open>The inner loop over the hours, for one temperature; the state is the pair of the
  lists \<^verbatim>\<open>points\<close> and \<^verbatim>\<open>values\<close>.\<close>

fun hours_loop ::
  "stress_data \<Rightarrow> nat \<Rightarrow> real \<Rightarrow> real list \<Rightarrow> point list \<times> real list \<Rightarrow>
   py_error + point list \<times> real list" where
  "hours_loop sd temp_idx temp [] acc = Inr acc"
| "hours_loop sd temp_idx temp (hours # rest) (points, vals) =
     (case cell sd hours temp_idx of
        Inl e \<Rightarrow> Inl e
      | Inr None \<Rightarrow> hours_loop sd temp_idx temp rest (points, vals)
      | Inr (Some stress) \<Rightarrow>
          hours_loop sd temp_idx temp rest (points @ [(temp, hours)], vals @ [stress]))"

text \<open>The outer loop over \<^verbatim>\<open>enumerate(temperature_ranges)\<close>.\<close>

fun temp_loop ::
  "stress_data \<Rightarrow> (nat \<times> real) list \<Rightarrow> point list \<times> real list \<Rightarrow>
   py_error + point list \<times> real list" where
  "temp_loop sd [] acc = Inr acc"
| "temp_loop sd ((temp_idx, temp) # rest) acc =
     (case hours_loop sd temp_idx temp hours_keys acc of
        Inl e \<Rightarrow> Inl e
      | Inr acc' \<Rightarrow> temp_loop sd rest acc')"

definition collect_points ::
  "real list \<Rightarrow> stress_data \<Rightarrow> py_error + point list \<times> real list" where
  "collect_points tr sd = temp_loop sd (enumerate 0 tr) ([], [])"

text \<open>The function reads the two module-level tables; here they are the parameters \<open>tr\<close>
  and \<open>sd\<close>. The bare \<^verbatim>\<open>except\<close> covers the call of \<^verbatim>\<open>griddata\<close> only: an exception of
  the loops is not caught.\<close>

definition interpolate_stress ::
  "griddata_fn \<Rightarrow> real list \<Rightarrow> stress_data \<Rightarrow> real \<Rightarrow> real \<Rightarrow> py_error + real option" where
  "interpolate_stress griddata tr sd temperature operating_hours =
     (case collect_points tr sd of
        Inl e \<Rightarrow> Inl e
      | Inr (points, vals) \<Rightarrow>
          if points = [] then Inr None
          else (case griddata points vals (temperature, operating_hours) of
                  GdRaise \<Rightarrow> Inr None
                | GdNaN \<Rightarrow> Inr None
                | GdValue v \<Rightarrow> Inr (Some v)))"


section \<open>A model of \<^verbatim>\<open>griddata\<close>\<close>

text \<open>
  Modelled from the spec: \<^verbatim>\<open>scipy.interpolate.griddata\<close> with \<^verbatim>\<open>method='linear'\<close> is
  called by \<^verbatim>\<open>interpolate_stress\<close> and is not part of \<^verbatim>\<open>app.py\<close>. Section 4.1 of the
  specification describes it: a Delaunay triangulation of the scattered points with the
  piecewise-linear fit on its triangles; a query point outside the convex hull, or one that
  no triangle contains, gets no value; degenerate geometry and too few points are a
  numerical failure. The arithmetic is exact.

  A triangle of three data points belongs to a Delaunay triangulation when it is not flat
  and no data point lies strictly inside its circumcircle. The model takes the first such
  triangle that contains the query point and interpolates linearly on it.
\<close>

text \<open>Twice the signed area of the triangle \<open>a b c\<close>.\<close>

definition orient :: "point \<Rightarrow> point \<Rightarrow> point \<Rightarrow> real" where
  "orient a b c = (fst b - fst a) * (snd c - snd a) - (snd b - snd a) * (fst c - fst a)"

text \<open>The in-circle determinant: for a counter-clockwise triangle it is positive exactly
  when \<open>d\<close> is strictly inside the circumcircle.\<close>

definition in_circle :: "point \<Rightarrow> point \<Rightarrow> point \<Rightarrow> point \<Rightarrow> real" where
  "in_circle a b c d =
     (let ax = fst a - fst d; ay = snd a - snd d;
          bx = fst b - fst d; by = snd b - snd d;
          cx = fst c - fst d; cy = snd c - snd d
      in (ax * ax + ay * ay) * (bx * cy - cx * by)
         - (bx * bx + by * by) * (ax * cy - cx * ay)
         + (cx * cx + cy * cy) * (ax * by - bx * ay))"

definition delaunay_triangle :: "point list \<Rightarrow> point \<Rightarrow> point \<Rightarrow> point \<Rightarrow> bool" where
  "delaunay_triangle pts a b c =
     (orient a b c \<noteq> 0 \<and> list_all (\<lambda>d. orient a b c * in_circle a b c d \<le> 0) pts)"

definition barycentric :: "point \<Rightarrow> point \<Rightarrow> point \<Rightarrow> point \<Rightarrow> real \<times> real \<times> real" where
  "barycentric a b c q =
     (orient q b c / orient a b c, orient a q c / orient a b c, orient a b q / orient a b c)"

definition in_triangle :: "point \<Rightarrow> point \<Rightarrow> point \<Rightarrow> point \<Rightarrow> bool" where
  "in_triangle a b c q = (case barycentric a b c q of (u, v, w) \<Rightarrow> 0 \<le> u \<and> 0 \<le> v \<and> 0 \<le> w)"

definition linear_on_triangle ::
  "point \<times> real \<Rightarrow> point \<times> real \<Rightarrow> point \<times> real \<Rightarrow> point \<Rightarrow> real" where
  "linear_on_triangle A B C q =
     (case barycentric (fst A) (fst B) (fst C) q of
        (u, v, w) \<Rightarrow> u * snd A + v * snd B + w * snd C)"

definition triples :: "'a list \<Rightarrow> ('a \<times> 'a \<times> 'a) list" where
  "triples xs = concat (map (\<lambda>a. concat (map (\<lambda>b. map (\<lambda>c. (a, b, c)) xs) xs)) xs)"

definition collinear_points :: "point list \<Rightarrow> bool" where
  "collinear_points pts =
     list_all (\<lambda>a. list_all (\<lambda>b. list_all (\<lambda>c. orient a b c = 0) pts) pts) pts"

definition usable_triangle ::
  "point list \<Rightarrow> point \<Rightarrow> (point \<times> real) \<times> (point \<times> real) \<times> (point \<times> real) \<Rightarrow> bool" where
  "usable_triangle pts q tri =
     (case tri of (A, B, C) \<Rightarrow>
        delaunay_triangle pts (fst A) (fst B) (fst C) \<and> in_triangle (fst A) (fst B) (fst C) q)"

definition griddata_linear :: griddata_fn where
  "griddata_linear points vals q =
     (if length vals \<noteq> length points \<or> collinear_points points then GdRaise
      else (case find (usable_triangle points q) (triples (zip points vals)) of
              None \<Rightarrow> GdNaN
            | Some (A, B, C) \<Rightarrow> GdValue (linear_on_triangle A B C q)))"

text \<open>The squared distance of two points.\<close>

definition sqdist :: "point \<Rightarrow> point \<Rightarrow> real" where
  "sqdist a b = (fst a - fst b) * (fst a - fst b) + (snd a - snd b) * (snd a - snd b)"

text \<open>The convex hull of the data points: the convex combinations of them.\<close>

definition in_convex_hull :: "point list \<Rightarrow> point \<Rightarrow> bool" where
  "in_convex_hull pts q =
     (\<exists>w. (\<forall>a \<in> set pts. 0 \<le> w a) \<and> (\<Sum>a \<in> set pts. w a) = 1 \<and>
          (\<Sum>a \<in> set pts. w a * fst a) = fst q \<and> (\<Sum>a \<in> set pts. w a * snd a) = snd q)"


text \<open>The lists \<^verbatim>\<open>points\<close> and \<^verbatim>\<open>values\<close> that the loops build from the table of the
  steel 12Kh1MF.\<close>

definition points_12x1mf :: "point list" where
  "points_12x1mf =
     (case collect_points temperature_ranges stress_data_12x1mf of
        Inr (points, vals) \<Rightarrow> points | Inl e \<Rightarrow> [])"

definition values_12x1mf :: "real list" where
  "values_12x1mf =
     (case collect_points temperature_ranges stress_data_12x1mf of
        Inr (points, vals) \<Rightarrow> vals | Inl e \<Rightarrow> [])"


section \<open>The calculation\<close>

text \<open>The values of the input widgets; the field \<open>in_x\<close> is the variable \<^verbatim>\<open>x\<close> of the source.\<close>

record inputs =
  in_D_a :: real
  in_s :: real
  in_d_a :: real
  in_s_s :: real
  in_p :: real
  in_T :: real
  in_operating_hours :: int
  in_planned_hours :: int
  in_c :: real

record calc_result =
  res_sigma_allowable :: real
  res_h_s :: npfloat
  res_s_os :: npfloat
  res_f_s :: npfloat
  res_D_m :: npfloat
  res_z :: npfloat
  res_phi_od :: npfloat
  res_denominator :: npfloat
  res_phi_oc :: npfloat
  res_sigma :: npfloat
  res_safety_factor :: npfloat
  res_strength_ok :: bool

text \<open>
  Steps 2 to 8, for a determined allowable stress; \<open>calc_x\<close> is the assignment to the
  variable \<^verbatim>\<open>x\<close> of the source, as a function of the variables it reads. The inputs
  and the allowable stress are Python floats; \<^verbatim>\<open>np.sqrt\<close> returns a numpy scalar, so
  every division but the one of step 3 is a numpy division. The \<^verbatim>\<open>else 0\<close> of step 5
  would give a Python integer, but it is taken only for \<open>z = -1.75\<close>, where
  \<^verbatim>\<open>denominator\<close> is not zero and \<^verbatim>\<open>phi_oc\<close> is a numpy product again (lemma
  \<open>step5_fallback_excludes_step6_fallback\<close> below).
\<close>

definition calc_h_s :: "inputs \<Rightarrow> npfloat" where
  "calc_h_s inp =
     fsqrt (fmul (fmul (Fin 1.25) (fsub (Fin (in_d_a inp)) (Fin (in_s_s inp))))
                 (fsub (Fin (in_s_s inp)) (Fin (in_c inp))))"

definition phi_temp :: npfloat where
  "phi_temp = Fin 1"

definition calc_s_os :: "inputs \<Rightarrow> real \<Rightarrow> py_error + npfloat" where
  "calc_s_os inp sigma_allowable =
     pydiv (fmul (Fin (in_p inp)) (Fin (in_d_a inp)))
           (fadd (fmul (fmul (Fin 2) (Fin sigma_allowable)) phi_temp) (Fin (in_p inp)))"

definition calc_f_s :: "inputs \<Rightarrow> npfloat \<Rightarrow> npfloat \<Rightarrow> npfloat" where
  "calc_f_s inp h_s s_os =
     fmul (fmul (Fin 2) h_s) (fsub (fsub (Fin (in_s_s inp)) (Fin (in_c inp))) s_os)"

definition calc_D_m :: "inputs \<Rightarrow> npfloat" where
  "calc_D_m inp = fsub (Fin (in_D_a inp)) (Fin (in_s inp))"

definition calc_z :: "inputs \<Rightarrow> npfloat \<Rightarrow> npfloat" where
  "calc_z inp D_m =
     fdiv (Fin (in_d_a inp)) (fsqrt (fmul D_m (fsub (Fin (in_s inp)) (Fin (in_c inp)))))"

definition calc_phi_od :: "npfloat \<Rightarrow> npfloat" where
  "calc_phi_od z =
     (if fne (fadd z (Fin 1.75)) (Fin 0) then fdiv (Fin 2) (fadd z (Fin 1.75)) else Fin 0)"

definition calc_denominator :: "inputs \<Rightarrow> npfloat \<Rightarrow> npfloat" where
  "calc_denominator inp D_m =
     fmul (fmul (Fin 2) (fsub (Fin (in_s inp)) (Fin (in_c inp))))
          (fsqrt (fmul D_m (fsub (Fin (in_s inp)) (Fin (in_c inp)))))"

definition calc_phi_oc :: "npfloat \<Rightarrow> npfloat \<Rightarrow> npfloat \<Rightarrow> npfloat" where
  "calc_phi_oc phi_od sum_f denominator =
     (if fne denominator (Fin 0) then fmul phi_od (fadd (Fin 1) (fdiv sum_f denominator))
      else phi_od)"

definition calc_sigma :: "inputs \<Rightarrow> npfloat \<Rightarrow> npfloat" where
  "calc_sigma inp phi_oc =
     fdiv (fmul (Fin (in_p inp)) (fsub (Fin (in_D_a inp)) (fsub (Fin (in_s inp)) (Fin (in_c inp)))))
          (fmul (fmul (Fin 2) phi_oc) (fsub (Fin (in_s inp)) (Fin (in_c inp))))"

definition calc_safety_factor :: "real \<Rightarrow> npfloat \<Rightarrow> npfloat" where
  "calc_safety_factor sigma_allowable sigma =
     (if fne sigma (Fin 0) then fdiv (Fin sigma_allowable) sigma else Fin 0)"

definition compute :: "inputs \<Rightarrow> real \<Rightarrow> py_error + calc_result" where
  "compute inp sigma_allowable =
     (let h_s = calc_h_s inp
      in case calc_s_os inp sigma_allowable of
           Inl e \<Rightarrow> Inl e
         | Inr s_os \<Rightarrow>
            (let f_s = calc_f_s inp h_s s_os;
                 D_m = calc_D_m inp;
                 z = calc_z inp D_m;
                 phi_od = calc_phi_od z;
                 sum_f = f_s;
                 denominator = calc_denominator inp D_m;
                 phi_oc = calc_phi_oc phi_od sum_f denominator;
                 sigma = calc_sigma inp phi_oc;
                 safety_factor = calc_safety_factor sigma_allowable sigma
             in Inr \<lparr>res_sigma_allowable = sigma_allowable, res_h_s = h_s, res_s_os = s_os,
                     res_f_s = f_s, res_D_m = D_m, res_z = z, res_phi_od = phi_od,
                     res_denominator = denominator, res_phi_oc = phi_oc, res_sigma = sigma,
                     res_safety_factor = safety_factor,
                     res_strength_ok = fle sigma (Fin sigma_allowable)\<rparr>))"

text \<open>What pressing the button does: \<open>Stopped\<close> is the \<^verbatim>\<open>st.error\<close> followed by
  \<^verbatim>\<open>st.stop()\<close>, \<open>Raised\<close> an uncaught exception, \<open>Rendered\<close> the page with every step.\<close>

datatype outcome = Stopped | Raised py_error | Rendered int calc_result

definition total_hours :: "inputs \<Rightarrow> int" where
  "total_hours inp = in_operating_hours inp + in_planned_hours inp"

definition run :: "griddata_fn \<Rightarrow> inputs \<Rightarrow> outcome" where
  "run griddata inp =
     (case interpolate_stress griddata temperature_ranges stress_data_12x1mf
             (in_T inp) (real_of_int (total_hours inp)) of
        Inl e \<Rightarrow> Raised e
      | Inr None \<Rightarrow> Stopped
      | Inr (Some sigma_allowable) \<Rightarrow>
          (case compute inp sigma_allowable of
             Inl e \<Rightarrow> Raised e
           | Inr r \<Rightarrow> Rendered (total_hours inp) r))"

text \<open>Reading one value off the rendered page; nothing is shown when the run stopped
  or raised.\<close>

definition shown :: "(calc_result \<Rightarrow> 'a) \<Rightarrow> outcome \<Rightarrow> 'a option" where
  "shown field out =
     (case out of Rendered th r \<Rightarrow> Some (field r) | Stopped \<Rightarrow> None | Raised e \<Rightarrow> None)"


section \<open>The formulas of the specification\<close>

text \<open>
  Section 4.2 of the specification states steps 2 to 8 as formulas over the reals. They
  are written down here as the specification has them, to be compared with the
  floating-point steps above; where a formula divides by zero or takes the root of a
  negative number its value has no meaning.
\<close>

definition formula_h_s :: "inputs \<Rightarrow> real" where
  "formula_h_s inp = sqrt (1.25 * (in_d_a inp - in_s_s inp) * (in_s_s inp - in_c inp))"

definition formula_s_os :: "inputs \<Rightarrow> real \<Rightarrow> real" where
  "formula_s_os inp sa = in_p inp * in_d_a inp / (2 * sa * 1 + in_p inp)"

definition formula_f_s :: "inputs \<Rightarrow> real \<Rightarrow> real" where
  "formula_f_s inp sa = 2 * formula_h_s inp * ((in_s_s inp - in_c inp) - formula_s_os inp sa)"

definition formula_D_m :: "inputs \<Rightarrow> real" where
  "formula_D_m inp = in_D_a inp - in_s inp"

definition formula_z :: "inputs \<Rightarrow> real" where
  "formula_z inp = in_d_a inp / sqrt (formula_D_m inp * (in_s inp - in_c inp))"

definition formula_phi_od :: "inputs \<Rightarrow> real" where
  "formula_phi_od inp = 2 / (formula_z inp + 1.75)"

definition formula_denominator :: "inputs \<Rightarrow> real" where
  "formula_denominator inp =
     2 * (in_s inp - in_c inp) * sqrt (formula_D_m inp * (in_s inp - in_c inp))"

definition formula_phi_oc :: "inputs \<Rightarrow> real \<Rightarrow> real" where
  "formula_phi_oc inp sa =
     formula_phi_od inp * (1 + formula_f_s inp sa / formula_denominator inp)"

definition formula_sigma :: "inputs \<Rightarrow> real \<Rightarrow> real" where
  "formula_sigma inp sa =
     in_p inp * (in_D_a inp - (in_s inp - in_c inp))
       / (2 * formula_phi_oc inp sa * (in_s inp - in_c inp))"


text \<open>Inputs on which every root and every quotient up to \<^verbatim>\<open>phi_oc\<close> is defined: a
  positive allowable stress, a pressure that is not negative, a main pipe wider than its
  wall, a wall thicker than the corrosion allowance, and a branch at least as wide as its
  wall, which is at least the allowance.\<close>

definition valid_domain :: "inputs \<Rightarrow> real \<Rightarrow> bool" where
  "valid_domain inp sa =
     (0 < sa \<and> 0 \<le> in_p inp \<and> in_s inp < in_D_a inp \<and> in_c inp < in_s inp \<and>
      in_c inp \<le> in_s_s inp \<and> in_s_s inp \<le> in_d_a inp \<and> 0 \<le> in_d_a inp)"

text \<open>The inputs the form starts with.\<close>

definition default_inputs :: inputs where
  "default_inputs =
     \<lparr>in_D_a = 325, in_s = 38, in_d_a = 93, in_s_s = 21.5, in_p = 14, in_T = 545,
      in_operating_hours = 219142, in_planned_hours = 50000, in_c = 0\<rparr>"

section \<open>Triangles and circumcircles\<close>

lemma orient_split: "orient q b c + orient a q c + orient a b q = orient a b c"
  by (simp add: orient_def algebra_simps)

lemma orient_origin_x:
  "orient q b c * (fst a - fst q) + orient a q c * (fst b - fst q)
     + orient a b q * (fst c - fst q) = 0"
  by (simp add: orient_def algebra_simps)

lemma orient_origin_y:
  "orient q b c * (snd a - snd q) + orient a q c * (snd b - snd q)
     + orient a b q * (snd c - snd q) = 0"
  by (simp add: orient_def algebra_simps)

lemma in_circle_weights:
  "in_circle a b c q =
     sqdist a q * orient q b c + sqdist b q * orient a q c + sqdist c q * orient a b q"
  by (simp add: orient_def in_circle_def sqdist_def Let_def algebra_simps)

lemma weighted_square_identity:
  fixes o1 o2 o3 ax ay bx "by" cx cy :: real
  shows "(o1 + o2 + o3) * ((ax * ax + ay * ay) * o1 + (bx * bx + by * by) * o2
            + (cx * cx + cy * cy) * o3)
         - (o1 * o2 * ((ax - bx) * (ax - bx) + (ay - by) * (ay - by))
            + o2 * o3 * ((bx - cx) * (bx - cx) + (by - cy) * (by - cy))
            + o1 * o3 * ((ax - cx) * (ax - cx) + (ay - cy) * (ay - cy)))
         = (o1 * ax + o2 * bx + o3 * cx) * (o1 * ax + o2 * bx + o3 * cx)
           + (o1 * ay + o2 * by + o3 * cy) * (o1 * ay + o2 * by + o3 * cy)"
  by (simp add: algebra_simps)

lemma sqdist_shift:
  "sqdist a b = ((fst a - fst q) - (fst b - fst q)) * ((fst a - fst q) - (fst b - fst q))
     + ((snd a - snd q) - (snd b - snd q)) * ((snd a - snd q) - (snd b - snd q))"
  by (simp add: sqdist_def)

lemma in_circle_orient:
  "orient a b c * in_circle a b c q =
     orient q b c * orient a q c * sqdist a b + orient a q c * orient a b q * sqdist b c
     + orient q b c * orient a b q * sqdist a c"
proof -
  let ?o1 = "orient q b c" and ?o2 = "orient a q c" and ?o3 = "orient a b q"
  let ?ax = "fst a - fst q" and ?ay = "snd a - snd q"
  let ?bx = "fst b - fst q" and ?by = "snd b - snd q"
  let ?cx = "fst c - fst q" and ?cy = "snd c - snd q"
  have x0: "?o1 * ?ax + ?o2 * ?bx + ?o3 * ?cx = 0" by (rule orient_origin_x)
  have y0: "?o1 * ?ay + ?o2 * ?by + ?o3 * ?cy = 0" by (rule orient_origin_y)
  have "(?o1 + ?o2 + ?o3) * ((?ax * ?ax + ?ay * ?ay) * ?o1 + (?bx * ?bx + ?by * ?by) * ?o2
            + (?cx * ?cx + ?cy * ?cy) * ?o3)
         - (?o1 * ?o2 * sqdist a b + ?o2 * ?o3 * sqdist b c + ?o1 * ?o3 * sqdist a c) = 0"
    unfolding sqdist_shift [of a b q] sqdist_shift [of b c q] sqdist_shift [of a c q]
      weighted_square_identity x0 y0 by simp
  moreover have "in_circle a b c q = (?ax * ?ax + ?ay * ?ay) * ?o1 + (?bx * ?bx + ?by * ?by) * ?o2
            + (?cx * ?cx + ?cy * ?cy) * ?o3"
    unfolding in_circle_weights sqdist_def by simp
  ultimately show ?thesis
    unfolding orient_split [of q b c a, symmetric] by simp
qed


lemma sqdist_pos: "a \<noteq> b \<Longrightarrow> 0 < sqdist a b"
proof -
  assume "a \<noteq> b"
  then have "fst a - fst b \<noteq> 0 \<or> snd a - snd b \<noteq> 0"
    by (auto simp: prod_eq_iff)
  then show ?thesis
    unfolding sqdist_def by (metis add_pos_nonneg add_nonneg_pos not_real_square_gt_zero zero_le_square)
qed

lemma orient_distinct: "orient a b c \<noteq> 0 \<Longrightarrow> a \<noteq> b \<and> b \<noteq> c \<and> a \<noteq> c"
  by (auto simp: orient_def)

lemma barycentric_sum:
  assumes "orient a b c \<noteq> 0" and "barycentric a b c q = (u, v, w)"
  shows "u + v + w = 1"
proof -
  have "u + v + w = (orient q b c + orient a q c + orient a b q) / orient a b c"
    using assms(2) by (auto simp: barycentric_def add_divide_distrib)
  then show ?thesis using assms(1) by (simp add: orient_split)
qed

lemma barycentric_point:
  assumes "orient a b c \<noteq> 0" and "barycentric a b c q = (u, v, w)"
  shows "fst q = u * fst a + v * fst b + w * fst c"
    and "snd q = u * snd a + v * snd b + w * snd c"
proof -
  let ?d = "orient a b c"
  have uvw: "u = orient q b c / ?d" "v = orient a q c / ?d" "w = orient a b q / ?d"
    using assms(2) by (auto simp: barycentric_def)
  have x: "orient q b c * fst a + orient a q c * fst b + orient a b q * fst c = ?d * fst q"
    by (simp add: orient_def algebra_simps)
  have y: "orient q b c * snd a + orient a q c * snd b + orient a b q * snd c = ?d * snd q"
    by (simp add: orient_def algebra_simps)
  have "u * fst a + v * fst b + w * fst c
          = (orient q b c * fst a + orient a q c * fst b + orient a b q * fst c) / ?d"
    unfolding uvw by (simp add: add_divide_distrib)
  then show "fst q = u * fst a + v * fst b + w * fst c"
    using assms(1) x by simp
  have "u * snd a + v * snd b + w * snd c
          = (orient q b c * snd a + orient a q c * snd b + orient a b q * snd c) / ?d"
    unfolding uvw by (simp add: add_divide_distrib)
  then show "snd q = u * snd a + v * snd b + w * snd c"
    using assms(1) y by simp
qed

text \<open>A data point inside a Delaunay triangle is one of its corners.\<close>

lemma delaunay_corner:
  assumes d: "orient a b c \<noteq> 0"
    and tri: "in_triangle a b c q"
    and circ: "orient a b c * in_circle a b c q \<le> 0"
  shows "(q = a \<and> barycentric a b c q = (1, 0, 0)) \<or>
         (q = b \<and> barycentric a b c q = (0, 1, 0)) \<or>
         (q = c \<and> barycentric a b c q = (0, 0, 1))"
proof -
  let ?d = "orient a b c"
  obtain u v w where b: "barycentric a b c q = (u, v, w)"
    by (metis prod_cases3)
  have nn: "0 \<le> u" "0 \<le> v" "0 \<le> w"
    using tri b by (auto simp: in_triangle_def)
  have o: "orient q b c = u * ?d" "orient a q c = v * ?d" "orient a b q = w * ?d"
    using b d by (auto simp: barycentric_def)
  have dist: "0 < sqdist a b" "0 < sqdist b c" "0 < sqdist a c"
    using orient_distinct [OF d] by (auto intro: sqdist_pos)
  let ?e = "u * v * sqdist a b + v * w * sqdist b c + u * w * sqdist a c"
  have eq: "?d * in_circle a b c q = (?d * ?d) * ?e"
    unfolding in_circle_orient o by (simp add: algebra_simps)
  have "(?d * ?d) * ?e \<le> 0" using circ unfolding eq .
  moreover have "0 < ?d * ?d" using d by (metis not_real_square_gt_zero)
  ultimately have le: "?e \<le> 0"
    by (metis mult_le_0_iff not_less)
  have t1: "0 \<le> u * v * sqdist a b" and t2: "0 \<le> v * w * sqdist b c"
    and t3: "0 \<le> u * w * sqdist a c"
    using nn dist by simp_all
  have "u * v * sqdist a b = 0" "v * w * sqdist b c = 0" "u * w * sqdist a c = 0"
    using le t1 t2 t3 by linarith+
  then have z: "u * v = 0" "v * w = 0" "u * w = 0"
    using dist by simp_all
  have s: "u + v + w = 1" by (rule barycentric_sum [OF d b])
  have p: "fst q = u * fst a + v * fst b + w * fst c" "snd q = u * snd a + v * snd b + w * snd c"
    by (rule barycentric_point [OF d b])+
  consider "u \<noteq> 0" | "u = 0" "v \<noteq> 0" | "u = 0" "v = 0" by blast
  then show ?thesis
  proof cases
    case 1
    then have "v = 0" "w = 0" using z by simp_all
    then have "u = 1" using s by simp
    then show ?thesis using \<open>v = 0\<close> \<open>w = 0\<close> p b by (simp add: prod_eq_iff)
  next
    case 2
    then have "w = 0" using z by simp
    then have "v = 1" using s 2 by simp
    then show ?thesis using \<open>u = 0\<close> \<open>w = 0\<close> p b by (simp add: prod_eq_iff)
  next
    case 3
    then have "w = 1" using s by simp
    then show ?thesis using 3 p b by (simp add: prod_eq_iff)
  qed
qed

lemma set_triples: "set (triples xs) = {(a, b, c). a \<in> set xs \<and> b \<in> set xs \<and> c \<in> set xs}"
  by (auto simp: triples_def)

lemma griddata_linear_value:
  assumes "griddata_linear pts vals q = GdValue v"
  shows "\<exists>A B C. A \<in> set (zip pts vals) \<and> B \<in> set (zip pts vals) \<and> C \<in> set (zip pts vals) \<and>
           usable_triangle pts q (A, B, C) \<and> v = linear_on_triangle A B C q"
proof -
  from assms obtain A B C
    where f: "find (usable_triangle pts q) (triples (zip pts vals)) = Some (A, B, C)"
      and v: "v = linear_on_triangle A B C q"
    by (auto simp: griddata_linear_def split: if_splits option.splits)
  from f obtain i where "i < length (triples (zip pts vals))"
    and "usable_triangle pts q (triples (zip pts vals) ! i)"
    and "(A, B, C) = triples (zip pts vals) ! i"
    unfolding find_Some_iff by blast
  then have "usable_triangle pts q (A, B, C)" and "(A, B, C) \<in> set (triples (zip pts vals))"
    by (metis, metis nth_mem)
  then show ?thesis using v unfolding set_triples by blast
qed

lemma griddata_linear_some:
  assumes "length vals = length pts" and "\<not> collinear_points pts"
    and "tri \<in> set (triples (zip pts vals))" and "usable_triangle pts q tri"
  shows "\<exists>v. griddata_linear pts vals q = GdValue v"
proof -
  have "find (usable_triangle pts q) (triples (zip pts vals)) \<noteq> None"
    using assms(3,4) unfolding find_None_iff by blast
  then show ?thesis
    using assms(1,2) by (auto simp: griddata_linear_def split: option.splits)
qed

section \<open>Properties of the model of \<^verbatim>\<open>griddata\<close>\<close>

lemma sum_single_weight:
  fixes f :: "point \<Rightarrow> real"
  assumes "finite S" and "a \<in> S"
  shows "(\<Sum>x \<in> S. (if x = a then u else 0) * f x) = u * f a"
proof -
  have "(\<Sum>x \<in> S. (if x = a then u else 0) * f x) = (\<Sum>x \<in> S. if x = a then u * f x else 0)"
    by (rule sum.cong) auto
  then show ?thesis using assms by (simp add: sum.delta)
qed

lemma triangle_in_convex_hull:
  assumes d: "orient a b c \<noteq> 0" and tri: "in_triangle a b c q"
    and mem: "a \<in> set pts" "b \<in> set pts" "c \<in> set pts"
  shows "in_convex_hull pts q"
proof -
  obtain u v w where b: "barycentric a b c q = (u, v, w)"
    by (metis prod_cases3)
  have nn: "0 \<le> u" "0 \<le> v" "0 \<le> w"
    using tri b by (auto simp: in_triangle_def)
  define wt :: "point \<Rightarrow> real" where
    "wt x = (if x = a then u else 0) + (if x = b then v else 0) + (if x = c then w else 0)" for x
  have fin: "finite (set pts)" by simp
  have gen: "(\<Sum>x \<in> set pts. wt x * f x) = u * f a + v * f b + w * f c" for f :: "point \<Rightarrow> real"
    unfolding wt_def distrib_right sum.distrib
    by (simp only: sum_single_weight [OF fin mem(1)] sum_single_weight [OF fin mem(2)]
        sum_single_weight [OF fin mem(3)])
  have "\<forall>x \<in> set pts. 0 \<le> wt x" using nn by (simp add: wt_def)
  moreover have "(\<Sum>x \<in> set pts. wt x) = 1"
    using gen [of "\<lambda>_. 1"] barycentric_sum [OF d b] by simp
  moreover have "(\<Sum>x \<in> set pts. wt x * fst x) = fst q"
    using gen [of fst] barycentric_point(1) [OF d b] by simp
  moreover have "(\<Sum>x \<in> set pts. wt x * snd x) = snd q"
    using gen [of snd] barycentric_point(2) [OF d b] by simp
  ultimately show ?thesis unfolding in_convex_hull_def by blast
qed

lemma griddata_linear_in_hull:
  assumes "griddata_linear pts vals q = GdValue v"
  shows "in_convex_hull pts q"
proof -
  from griddata_linear_value [OF assms] obtain A B C
    where m: "A \<in> set (zip pts vals)" "B \<in> set (zip pts vals)" "C \<in> set (zip pts vals)"
      and u: "usable_triangle pts q (A, B, C)"
    by blast
  have "fst A \<in> set pts" "fst B \<in> set pts" "fst C \<in> set pts"
    using m by (metis prod.collapse set_zip_leftD)+
  moreover have "orient (fst A) (fst B) (fst C) \<noteq> 0" "in_triangle (fst A) (fst B) (fst C) q"
    using u by (auto simp: usable_triangle_def delaunay_triangle_def)
  ultimately show ?thesis by (metis triangle_in_convex_hull)
qed

text \<open>A point that a linear functional separates from the data is outside the hull.\<close>

lemma separated_not_in_hull:
  assumes "\<forall>a \<in> set pts. m * fst a + n * snd a \<le> k" and "k < m * fst q + n * snd q"
  shows "\<not> in_convex_hull pts q"
proof
  assume "in_convex_hull pts q"
  then obtain w where nn: "\<forall>a \<in> set pts. 0 \<le> w a" and one: "(\<Sum>a \<in> set pts. w a) = 1"
    and x: "(\<Sum>a \<in> set pts. w a * fst a) = fst q" and y: "(\<Sum>a \<in> set pts. w a * snd a) = snd q"
    unfolding in_convex_hull_def by blast
  have "m * fst q + n * snd q = (\<Sum>a \<in> set pts. w a * (m * fst a + n * snd a))"
    unfolding x [symmetric] y [symmetric] sum_distrib_left sum.distrib [symmetric]
    by (rule sum.cong) (auto simp: algebra_simps)
  also have "\<dots> \<le> (\<Sum>a \<in> set pts. w a * k)"
    by (rule sum_mono) (use nn assms(1) in \<open>auto intro: mult_left_mono\<close>)
  also have "\<dots> = k"
    unfolding sum_distrib_right [symmetric] one by simp
  finally show False using assms(2) by simp
qed

lemma linear_on_triangle_bounds:
  assumes d: "orient (fst A) (fst B) (fst C) \<noteq> 0" and tri: "in_triangle (fst A) (fst B) (fst C) q"
    and lo: "lo \<le> snd A" "lo \<le> snd B" "lo \<le> snd C"
    and hi: "snd A \<le> hi" "snd B \<le> hi" "snd C \<le> hi"
  shows "lo \<le> linear_on_triangle A B C q \<and> linear_on_triangle A B C q \<le> hi"
proof -
  obtain u v w where b: "barycentric (fst A) (fst B) (fst C) q = (u, v, w)"
    by (metis prod_cases3)
  have nn: "0 \<le> u" "0 \<le> v" "0 \<le> w"
    using tri b by (auto simp: in_triangle_def)
  have s: "u + v + w = 1" by (rule barycentric_sum [OF d b])
  have val: "linear_on_triangle A B C q = u * snd A + v * snd B + w * snd C"
    using b by (simp add: linear_on_triangle_def)
  have "u * lo + v * lo + w * lo \<le> u * snd A + v * snd B + w * snd C"
    using nn lo by (intro add_mono mult_left_mono)
  moreover have "u * snd A + v * snd B + w * snd C \<le> u * hi + v * hi + w * hi"
    using nn hi by (intro add_mono mult_left_mono)
  moreover have "u * lo + v * lo + w * lo = lo" "u * hi + v * hi + w * hi = hi"
    using s by (simp_all add: distrib_right [symmetric])
  ultimately show ?thesis unfolding val by simp
qed

lemma griddata_linear_bounds:
  assumes "griddata_linear pts vals q = GdValue v"
    and "\<forall>x \<in> set vals. lo \<le> x \<and> x \<le> hi"
  shows "lo \<le> v \<and> v \<le> hi"
proof -
  from griddata_linear_value [OF assms(1)] obtain A B C
    where m: "A \<in> set (zip pts vals)" "B \<in> set (zip pts vals)" "C \<in> set (zip pts vals)"
      and u: "usable_triangle pts q (A, B, C)" and v: "v = linear_on_triangle A B C q"
    by blast
  have "snd A \<in> set vals" "snd B \<in> set vals" "snd C \<in> set vals"
    using m by (metis prod.collapse set_zip_rightD)+
  then have "lo \<le> snd A" "lo \<le> snd B" "lo \<le> snd C" "snd A \<le> hi" "snd B \<le> hi" "snd C \<le> hi"
    using assms(2) by auto
  moreover have "orient (fst A) (fst B) (fst C) \<noteq> 0" "in_triangle (fst A) (fst B) (fst C) q"
    using u by (auto simp: usable_triangle_def delaunay_triangle_def)
  ultimately show ?thesis unfolding v by (intro linear_on_triangle_bounds)
qed

text \<open>At a data point that is a corner of some Delaunay triangle, the interpolation
  returns the value given there.\<close>

lemma in_triangle_corner:
  assumes "orient a b c \<noteq> 0" and "q = a \<or> q = b \<or> q = c"
  shows "in_triangle a b c q"
  using assms by (auto simp: in_triangle_def barycentric_def orient_def)

lemma griddata_linear_exact:
  assumes len: "length vals = length pts" and dist: "distinct pts"
    and qv: "(q, v) \<in> set (zip pts vals)"
    and del: "delaunay_triangle pts a b c" and abc: "a \<in> set pts" "b \<in> set pts" "c \<in> set pts"
    and corner: "q = a \<or> q = b \<or> q = c"
  shows "griddata_linear pts vals q = GdValue v"
proof -
  have d0: "orient a b c \<noteq> 0" using del by (simp add: delaunay_triangle_def)
  have nc: "\<not> collinear_points pts"
    using d0 abc unfolding collinear_points_def list_all_iff by blast
  have fst_set: "fst ` set (zip pts vals) = set pts"
    using len by (metis map_fst_zip set_map)
  obtain A B C where ABC: "A \<in> set (zip pts vals)" "B \<in> set (zip pts vals)"
      "C \<in> set (zip pts vals)" "fst A = a" "fst B = b" "fst C = c"
    using abc unfolding fst_set [symmetric] by blast
  have "usable_triangle pts q (A, B, C)"
    using del in_triangle_corner [OF d0 corner] ABC by (simp add: usable_triangle_def)
  moreover have "(A, B, C) \<in> set (triples (zip pts vals))"
    using ABC unfolding set_triples by blast
  ultimately obtain v' where v': "griddata_linear pts vals q = GdValue v'"
    using griddata_linear_some [OF len nc] by blast
  from griddata_linear_value [OF v'] obtain A' B' C'
    where m: "A' \<in> set (zip pts vals)" "B' \<in> set (zip pts vals)" "C' \<in> set (zip pts vals)"
      and u: "usable_triangle pts q (A', B', C')" and veq: "v' = linear_on_triangle A' B' C' q"
    by blast
  have q_in: "q \<in> set pts" using qv by (metis set_zip_leftD)
  have d': "orient (fst A') (fst B') (fst C') \<noteq> 0"
    and t': "in_triangle (fst A') (fst B') (fst C') q"
    and c': "orient (fst A') (fst B') (fst C') * in_circle (fst A') (fst B') (fst C') q \<le> 0"
    using u q_in by (auto simp: usable_triangle_def delaunay_triangle_def list_all_iff)
  have unique: "snd X = v" if "X \<in> set (zip pts vals)" "fst X = q" for X
  proof -
    have "distinct (map fst (zip pts vals))" using dist len by simp
    moreover have "(q, snd X) \<in> set (zip pts vals)" using that by (metis prod.collapse)
    ultimately show ?thesis using qv by (metis eq_key_imp_eq_value)
  qed
  from delaunay_corner [OF d' t' c'] have "v' = v"
  proof (elim disjE conjE)
    assume "q = fst A'" "barycentric (fst A') (fst B') (fst C') q = (1, 0, 0)"
    then show ?thesis using unique [OF m(1)] veq by (simp add: linear_on_triangle_def)
  next
    assume "q = fst B'" "barycentric (fst A') (fst B') (fst C') q = (0, 1, 0)"
    then show ?thesis using unique [OF m(2)] veq by (simp add: linear_on_triangle_def)
  next
    assume "q = fst C'" "barycentric (fst A') (fst B') (fst C') q = (0, 0, 1)"
    then show ?thesis using unique [OF m(3)] veq by (simp add: linear_on_triangle_def)
  qed
  then show ?thesis using v' by simp
qed

section \<open>The loops of \<^verbatim>\<open>interpolate_stress\<close>\<close>

lemma hours_loop_zip:
  assumes "hours_loop sd i t hs (ps, vs) = Inr (ps', vs')" and "length ps = length vs"
  shows "length ps' = length vs' \<and>
         set (zip ps' vs') =
           set (zip ps vs) \<union> {((t, h), v) | h v. h \<in> set hs \<and> cell sd h i = Inr (Some v)}"
  using assms
proof (induction hs arbitrary: ps vs)
  case Nil
  then show ?case by simp
next
  case (Cons h hs)
  show ?case
  proof (cases "cell sd h i")
    case (Inl e)
    then show ?thesis using Cons.prems by simp
  next
    case (Inr ov)
    show ?thesis
    proof (cases ov)
      case None
      then have "hours_loop sd i t hs (ps, vs) = Inr (ps', vs')"
        using Cons.prems Inr by simp
      from Cons.IH [OF this Cons.prems(2)] show ?thesis
        using Inr None by auto
    next
      case (Some v)
      then have "hours_loop sd i t hs (ps @ [(t, h)], vs @ [v]) = Inr (ps', vs')"
        using Cons.prems Inr by simp
      moreover have "length (ps @ [(t, h)]) = length (vs @ [v])"
        using Cons.prems(2) by simp
      ultimately have "length ps' = length vs' \<and>
         set (zip ps' vs') = set (zip (ps @ [(t, h)]) (vs @ [v])) \<union>
           {((t, h'), v') | h' v'. h' \<in> set hs \<and> cell sd h' i = Inr (Some v')}"
        by (rule Cons.IH)
      then show ?thesis
        using Inr Some Cons.prems(2) by (auto simp: zip_append)
    qed
  qed
qed

lemma temp_loop_zip:
  assumes "temp_loop sd its (ps, vs) = Inr (ps', vs')" and "length ps = length vs"
  shows "length ps' = length vs' \<and>
         set (zip ps' vs') =
           set (zip ps vs) \<union>
           {((t, h), v) | i t h v. (i, t) \<in> set its \<and> h \<in> set hours_keys \<and>
              cell sd h i = Inr (Some v)}"
  using assms
proof (induction its arbitrary: ps vs)
  case Nil
  then show ?case by simp
next
  case (Cons it its)
  obtain i t where it: "it = (i, t)" by (cases it)
  from Cons.prems(1) obtain ps1 vs1
    where h: "hours_loop sd i t hours_keys (ps, vs) = Inr (ps1, vs1)"
      and r: "temp_loop sd its (ps1, vs1) = Inr (ps', vs')"
    unfolding it by (auto split: sum.splits)
  from hours_loop_zip [OF h Cons.prems(2)]
  have l1: "length ps1 = length vs1"
    and s1: "set (zip ps1 vs1) = set (zip ps vs) \<union>
      {((t, h), v) | h v. h \<in> set hours_keys \<and> cell sd h i = Inr (Some v)}"
    by blast+
  from Cons.IH [OF r l1]
  have l2: "length ps' = length vs'"
    and s2: "set (zip ps' vs') = set (zip ps1 vs1) \<union>
      {((t, h), v) | i t h v. (i, t) \<in> set its \<and> h \<in> set hours_keys \<and>
         cell sd h i = Inr (Some v)}"
    by blast+
  show ?case unfolding it using l2 s1 s2 by auto
qed

text \<open>The points and values of \<^verbatim>\<open>interpolate_stress\<close> are the cells of the table with
  a value.\<close>

lemma collect_points_cells:
  assumes "collect_points tr sd = Inr (pts, vals)"
  shows "length pts = length vals"
    and "set (zip pts vals) =
           {((tr ! i, h), v) | i h v. i < length tr \<and> h \<in> set hours_keys \<and>
              cell sd h i = Inr (Some v)}"
proof -
  have "temp_loop sd (enumerate 0 tr) ([], []) = Inr (pts, vals)"
    using assms by (simp add: collect_points_def)
  from temp_loop_zip [OF this]
  have l: "length pts = length vals"
    and s: "set (zip pts vals) =
      {((t, h), v) | i t h v. (i, t) \<in> set (enumerate 0 tr) \<and> h \<in> set hours_keys \<and>
         cell sd h i = Inr (Some v)}"
    by auto
  show "length pts = length vals" by (rule l)
  show "set (zip pts vals) =
           {((tr ! i, h), v) | i h v. i < length tr \<and> h \<in> set hours_keys \<and>
              cell sd h i = Inr (Some v)}"
    unfolding s by (auto simp: in_set_enumerate_eq)
qed

lemma cell_12x1mf_hours:
  assumes "cell stress_data_12x1mf h i = Inr ov"
  shows "h \<in> set hours_keys"
  using assms
  by (auto simp: cell_def stress_data_12x1mf_def hours_keys_def split: option.splits if_splits)

section \<open>The points of the table\<close>

lemma collect_points_12x1mf:
  "collect_points temperature_ranges stress_data_12x1mf = Inr
    ([(20, 100000), (250, 100000), (300, 100000), (350, 100000), (400, 100000),
      (420, 100000), (440, 100000), (450, 100000), (450, 200000), (450, 300000),
      (450, 400000), (460, 100000), (460, 200000), (460, 300000), (460, 400000),
      (480, 10000), (480, 100000), (480, 200000), (480, 300000), (480, 400000),
      (500, 10000), (500, 100000), (500, 200000), (500, 300000), (500, 400000),
      (510, 10000), (510, 100000), (510, 200000), (510, 300000), (510, 400000),
      (520, 10000), (520, 100000), (520, 200000), (520, 300000), (520, 400000),
      (530, 10000), (530, 100000), (530, 200000), (530, 300000), (530, 400000),
      (540, 10000), (540, 100000), (540, 200000), (540, 300000), (540, 400000),
      (550, 10000), (550, 100000), (550, 200000), (550, 300000), (550, 400000),
      (560, 10000), (560, 100000), (560, 200000), (560, 300000), (560, 400000),
      (570, 10000), (570, 100000), (570, 200000), (570, 300000), (570, 400000),
      (580, 10000), (580, 100000), (580, 200000), (580, 300000), (580, 400000),
      (590, 10000), (590, 100000), (590, 200000), (590, 300000), (590, 400000),
      (600, 10000), (600, 100000), (600, 200000), (600, 300000), (600, 400000),
      (610, 10000), (610, 100000), (620, 10000)],
     [173, 166, 159, 152, 145, 142, 139, 138, 138, 138, 138, 136, 136, 130, 125, 133, 133,
      120, 107, 103, 130, 113, 96, 88, 83, 120, 101, 86, 79, 76, 112, 90, 77, 72, 66, 100,
      81, 69, 65, 59, 88, 73, 62, 58, 53, 80, 66, 56, 52, 48, 72, 59, 50, 46, 43, 65, 53,
      44, 41, 38, 59, 47, 39, 36, 34, 53, 41, 35, 32, 30, 47, 37, 31, 29, 27, 41, 33, 35])"
  by (simp add: collect_points_def temperature_ranges_def stress_data_12x1mf_def hours_keys_def
      cell_def enumerate_eq_zip upt_rec)

lemma points_12x1mf_eq:
  "points_12x1mf =
    [(20, 100000), (250, 100000), (300, 100000), (350, 100000), (400, 100000),
      (420, 100000), (440, 100000), (450, 100000), (450, 200000), (450, 300000),
      (450, 400000), (460, 100000), (460, 200000), (460, 300000), (460, 400000),
      (480, 10000), (480, 100000), (480, 200000), (480, 300000), (480, 400000),
      (500, 10000), (500, 100000), (500, 200000), (500, 300000), (500, 400000),
      (510, 10000), (510, 100000), (510, 200000), (510, 300000), (510, 400000),
      (520, 10000), (520, 100000), (520, 200000), (520, 300000), (520, 400000),
      (530, 10000), (530, 100000), (530, 200000), (530, 300000), (530, 400000),
      (540, 10000), (540, 100000), (540, 200000), (540, 300000), (540, 400000),
      (550, 10000), (550, 100000), (550, 200000), (550, 300000), (550, 400000),
      (560, 10000), (560, 100000), (560, 200000), (560, 300000), (560, 400000),
      (570, 10000), (570, 100000), (570, 200000), (570, 300000), (570, 400000),
      (580, 10000), (580, 100000), (580, 200000), (580, 300000), (580, 400000),
      (590, 10000), (590, 100000), (590, 200000), (590, 300000), (590, 400000),
      (600, 10000), (600, 100000), (600, 200000), (600, 300000), (600, 400000),
      (610, 10000), (610, 100000), (620, 10000)]"
  by (simp add: points_12x1mf_def collect_points_12x1mf)

lemma values_12x1mf_eq:
  "values_12x1mf =
     [173, 166, 159, 152, 145, 142, 139, 138, 138, 138, 138, 136, 136, 130, 125, 133, 133,
      120, 107, 103, 130, 113, 96, 88, 83, 120, 101, 86, 79, 76, 112, 90, 77, 72, 66, 100,
      81, 69, 65, 59, 88, 73, 62, 58, 53, 80, 66, 56, 52, 48, 72, 59, 50, 46, 43, 65, 53,
      44, 41, 38, 59, 47, 39, 36, 34, 53, 41, 35, 32, 30, 47, 37, 31, 29, 27, 41, 33, 35]"
  by (simp add: values_12x1mf_def collect_points_12x1mf)

lemma collect_points_12x1mf_names:
  "collect_points temperature_ranges stress_data_12x1mf = Inr (points_12x1mf, values_12x1mf)"
  by (simp add: points_12x1mf_eq values_12x1mf_eq collect_points_12x1mf)

lemma distinct_points_12x1mf: "distinct points_12x1mf"
  by (simp add: points_12x1mf_eq)

lemma length_values_12x1mf: "length values_12x1mf = length points_12x1mf"
  by (simp add: points_12x1mf_eq values_12x1mf_eq)

lemma values_12x1mf_range: "\<forall>x \<in> set values_12x1mf. 27 \<le> x \<and> x \<le> 173"
  by (simp add: values_12x1mf_eq)

lemma delaunay_cover_a:
  "delaunay_triangle points_12x1mf (20, 100000) (250, 100000) (450, 200000)"
  "delaunay_triangle points_12x1mf (460, 400000) (480, 300000) (480, 400000)"
  "delaunay_triangle points_12x1mf (500, 400000) (510, 300000) (510, 400000)"
  "delaunay_triangle points_12x1mf (530, 100000) (540, 10000) (540, 100000)"
  "delaunay_triangle points_12x1mf (560, 100000) (560, 200000) (570, 100000)"
  "delaunay_triangle points_12x1mf (580, 400000) (590, 300000) (590, 400000)"
  "delaunay_triangle points_12x1mf (400, 100000) (420, 100000) (450, 200000)"
  by (simp_all add: delaunay_triangle_def orient_def in_circle_def points_12x1mf_eq)

lemma delaunay_cover_b:
  "delaunay_triangle points_12x1mf (300, 100000) (350, 100000) (480, 10000)"
  "delaunay_triangle points_12x1mf (480, 100000) (480, 200000) (500, 100000)"
  "delaunay_triangle points_12x1mf (520, 10000) (520, 100000) (530, 10000)"
  "delaunay_triangle points_12x1mf (540, 200000) (540, 300000) (550, 200000)"
  "delaunay_triangle points_12x1mf (560, 300000) (560, 400000) (570, 300000)"
  "delaunay_triangle points_12x1mf (590, 10000) (590, 100000) (600, 10000)"
  "delaunay_triangle points_12x1mf (600, 10000) (610, 10000) (610, 100000)"
  by (simp_all add: delaunay_triangle_def orient_def in_circle_def points_12x1mf_eq)

lemma delaunay_cover_c:
  "delaunay_triangle points_12x1mf (450, 100000) (460, 100000) (460, 200000)"
  "delaunay_triangle points_12x1mf (500, 10000) (510, 10000) (510, 100000)"
  "delaunay_triangle points_12x1mf (520, 200000) (520, 300000) (530, 200000)"
  "delaunay_triangle points_12x1mf (540, 400000) (550, 300000) (550, 400000)"
  "delaunay_triangle points_12x1mf (570, 10000) (580, 10000) (580, 100000)"
  "delaunay_triangle points_12x1mf (590, 200000) (600, 100000) (600, 200000)"
  "delaunay_triangle points_12x1mf (420, 100000) (440, 100000) (450, 200000)"
  by (simp_all add: delaunay_triangle_def orient_def in_circle_def points_12x1mf_eq)

lemma delaunay_cover_d:
  "delaunay_triangle points_12x1mf (450, 300000) (450, 400000) (460, 300000)"
  "delaunay_triangle points_12x1mf (500, 200000) (500, 300000) (510, 200000)"
  "delaunay_triangle points_12x1mf (520, 400000) (530, 300000) (530, 400000)"
  "delaunay_triangle points_12x1mf (550, 10000) (550, 100000) (560, 10000)"
  "delaunay_triangle points_12x1mf (570, 200000) (580, 200000) (580, 300000)"
  "delaunay_triangle points_12x1mf (600, 300000) (600, 400000) (620, 10000)"
  "delaunay_triangle points_12x1mf (560, 300000) (560, 400000) (570, 400000)"
  by (simp_all add: delaunay_triangle_def orient_def in_circle_def points_12x1mf_eq)

lemma delaunay_corner_12x1mf:
  assumes "q \<in> set points_12x1mf"
  shows "\<exists>a b c. a \<in> set points_12x1mf \<and> b \<in> set points_12x1mf \<and> c \<in> set points_12x1mf \<and>
           delaunay_triangle points_12x1mf a b c \<and> (q = a \<or> q = b \<or> q = c)"
proof -
  define cover :: "(point \<times> point \<times> point) list" where
    "cover =
        [((20, 100000), (250, 100000), (450, 200000)),
         ((300, 100000), (350, 100000), (480, 10000)),
         ((450, 100000), (460, 100000), (460, 200000)),
         ((450, 300000), (450, 400000), (460, 300000)),
         ((460, 400000), (480, 300000), (480, 400000)),
         ((480, 100000), (480, 200000), (500, 100000)),
         ((500, 10000), (510, 10000), (510, 100000)),
         ((500, 200000), (500, 300000), (510, 200000)),
         ((500, 400000), (510, 300000), (510, 400000)),
         ((520, 10000), (520, 100000), (530, 10000)),
         ((520, 200000), (520, 300000), (530, 200000)),
         ((520, 400000), (530, 300000), (530, 400000)),
         ((530, 100000), (540, 10000), (540, 100000)),
         ((540, 200000), (540, 300000), (550, 200000)),
         ((540, 400000), (550, 300000), (550, 400000)),
         ((550, 10000), (550, 100000), (560, 10000)),
         ((560, 100000), (560, 200000), (570, 100000)),
         ((560, 300000), (560, 400000), (570, 300000)),
         ((570, 10000), (580, 10000), (580, 100000)),
         ((570, 200000), (580, 200000), (580, 300000)),
         ((580, 400000), (590, 300000), (590, 400000)),
         ((590, 10000), (590, 100000), (600, 10000)),
         ((590, 200000), (600, 100000), (600, 200000)),
         ((600, 300000), (600, 400000), (620, 10000)),
         ((400, 100000), (420, 100000), (450, 200000)),
         ((600, 10000), (610, 10000), (610, 100000)),
         ((420, 100000), (440, 100000), (450, 200000)),
         ((560, 300000), (560, 400000), (570, 400000))]"
  have del: "list_all (\<lambda>t. delaunay_triangle points_12x1mf (fst t) (fst (snd t)) (snd (snd t))) cover"
    unfolding cover_def
    by (simp add: delaunay_cover_a delaunay_cover_b delaunay_cover_c delaunay_cover_d)
  have mem: "list_all (\<lambda>t. fst t \<in> set points_12x1mf \<and> fst (snd t) \<in> set points_12x1mf \<and>
      snd (snd t) \<in> set points_12x1mf) cover"
    unfolding cover_def by (simp add: points_12x1mf_eq)
  have cov: "list_all (\<lambda>q. list_ex (\<lambda>t. q = fst t \<or> q = fst (snd t) \<or> q = snd (snd t)) cover)
      points_12x1mf"
    unfolding cover_def by (simp add: points_12x1mf_eq)
  from cov assms obtain t where t: "t \<in> set cover" "q = fst t \<or> q = fst (snd t) \<or> q = snd (snd t)"
    unfolding list_all_iff list_ex_iff by blast
  then show ?thesis using del mem unfolding list_all_iff by blast
qed

lemma not_collinear_12x1mf: "\<not> collinear_points points_12x1mf"
proof -
  have "orient (20, 100000) (250, 100000) (450, 200000) \<noteq> 0"
    by (simp add: orient_def)
  moreover have "(20, 100000) \<in> set points_12x1mf" "(250, 100000) \<in> set points_12x1mf"
    "(450, 200000) \<in> set points_12x1mf"
    by (simp_all add: points_12x1mf_eq)
  ultimately show ?thesis unfolding collinear_points_def list_all_iff by blast
qed

lemma points_12x1mf_nonempty: "points_12x1mf \<noteq> []"
  by (simp add: points_12x1mf_eq)

lemma interpolate_stress_12x1mf:
  "interpolate_stress g temperature_ranges stress_data_12x1mf t h =
     (case g points_12x1mf values_12x1mf (t, h) of
        GdRaise \<Rightarrow> Inr None | GdNaN \<Rightarrow> Inr None | GdValue v \<Rightarrow> Inr (Some v))"
  by (simp add: interpolate_stress_def collect_points_12x1mf_names points_12x1mf_nonempty)

section \<open>Finite floats and the steps of the calculation\<close>

lemma represents_Fin [simp]: "represents (Fin r) r"
  by (simp add: represents_def)

lemma represents_fneg: "represents x a \<Longrightarrow> represents (fneg x) (- a)"
  by (auto simp: represents_def split: if_splits)

lemma represents_fadd:
  "represents x a \<Longrightarrow> represents y b \<Longrightarrow> represents (fadd x y) (a + b)"
  by (auto simp: represents_def fadd_def is_inf_def is_zero_def signed_zero_def)

lemma represents_fsub:
  "represents x a \<Longrightarrow> represents y b \<Longrightarrow> represents (fsub x y) (a - b)"
  using represents_fadd [OF _ represents_fneg, of x a y b] by (simp add: fsub_def)

lemma represents_fmul:
  "represents x a \<Longrightarrow> represents y b \<Longrightarrow> represents (fmul x y) (a * b)"
  by (auto simp: represents_def fmul_def is_inf_def is_zero_def signed_zero_def)

lemma represents_fdiv:
  "represents x a \<Longrightarrow> represents y b \<Longrightarrow> b \<noteq> 0 \<Longrightarrow> represents (fdiv x y) (a / b)"
  by (auto simp: represents_def fdiv_def is_inf_def is_zero_def signed_zero_def)

lemma represents_fsqrt: "represents x a \<Longrightarrow> 0 \<le> a \<Longrightarrow> represents (fsqrt x) (sqrt a)"
  by (auto simp: represents_def)

lemma represents_fne_zero: "represents x a \<Longrightarrow> fne x (Fin 0) \<longleftrightarrow> a \<noteq> 0"
  by (auto simp: represents_def fne_def is_inf_def)

lemma represents_fle: "represents x a \<Longrightarrow> represents y b \<Longrightarrow> fle x y \<longleftrightarrow> a \<le> b"
  by (auto simp: represents_def fle_def is_inf_def)

lemma represents_pydiv:
  "represents x a \<Longrightarrow> represents y b \<Longrightarrow> b \<noteq> 0 \<Longrightarrow>
     \<exists>q. pydiv x y = Inr q \<and> represents q (a / b)"
  using represents_fdiv [of x a y b]
  by (auto simp: pydiv_def is_zero_def represents_def)

lemma compute_fields:
  assumes "compute inp sa = Inr r"
  shows "calc_s_os inp sa = Inr (res_s_os r)"
    and "res_sigma_allowable r = sa"
    and "res_h_s r = calc_h_s inp"
    and "res_f_s r = calc_f_s inp (res_h_s r) (res_s_os r)"
    and "res_D_m r = calc_D_m inp"
    and "res_z r = calc_z inp (res_D_m r)"
    and "res_phi_od r = calc_phi_od (res_z r)"
    and "res_denominator r = calc_denominator inp (res_D_m r)"
    and "res_phi_oc r = calc_phi_oc (res_phi_od r) (res_f_s r) (res_denominator r)"
    and "res_sigma r = calc_sigma inp (res_phi_oc r)"
    and "res_safety_factor r = calc_safety_factor sa (res_sigma r)"
    and "res_strength_ok r = fle (res_sigma r) (Fin sa)"
  using assms by (auto simp: compute_def Let_def split: sum.splits)

lemma run_Rendered:
  assumes "run g inp = Rendered th r"
  shows "th = total_hours inp"
    and "\<exists>sa. interpolate_stress g temperature_ranges stress_data_12x1mf (in_T inp)
                (real_of_int (total_hours inp)) = Inr (Some sa) \<and> compute inp sa = Inr r"
  using assms by (auto simp: run_def split: sum.splits option.splits)

section \<open>The steps of the calculation and the formulas\<close>

lemma represents_nonzero: "represents x a \<Longrightarrow> a \<noteq> 0 \<Longrightarrow> x = Fin a"
  by (auto simp: represents_def)

lemma fmul_NaN [simp]: "fmul NaN y = NaN" "fmul x NaN = NaN"
  by (simp_all add: fmul_def)

lemma fdiv_NaN [simp]: "fdiv NaN y = NaN" "fdiv x NaN = NaN"
  by (simp_all add: fdiv_def)

lemma fadd_NaN [simp]: "fadd NaN y = NaN" "fadd x NaN = NaN"
  by (simp_all add: fadd_def)

lemma fne_NaN [simp]: "fne NaN y" "fne x NaN"
  by (simp_all add: fne_def)

lemma fle_NaN [simp]: "\<not> fle NaN y" "\<not> fle x NaN"
  by (simp_all add: fle_def)

lemma radicand_represents:
  "represents (fmul (fmul (Fin 1.25) (fsub (Fin (in_d_a inp)) (Fin (in_s_s inp))))
                    (fsub (Fin (in_s_s inp)) (Fin (in_c inp))))
     (1.25 * (in_d_a inp - in_s_s inp) * (in_s_s inp - in_c inp))"
  by (intro represents_fmul represents_fsub represents_Fin)

lemma formula_h_s_nonneg:
  assumes "0 \<le> (in_d_a inp - in_s_s inp) * (in_s_s inp - in_c inp)"
  shows "0 \<le> formula_h_s inp"
proof -
  have "0 \<le> 1.25 * ((in_d_a inp - in_s_s inp) * (in_s_s inp - in_c inp))"
    by (rule mult_nonneg_nonneg [OF _ assms]) simp
  then have "0 \<le> 1.25 * (in_d_a inp - in_s_s inp) * (in_s_s inp - in_c inp)"
    by (simp only: mult.assoc)
  then show ?thesis unfolding formula_h_s_def by (rule real_sqrt_ge_zero)
qed

lemma calc_h_s_represents:
  assumes "0 \<le> (in_d_a inp - in_s_s inp) * (in_s_s inp - in_c inp)"
  shows "represents (calc_h_s inp) (formula_h_s inp)"
proof -
  have "0 \<le> 1.25 * ((in_d_a inp - in_s_s inp) * (in_s_s inp - in_c inp))"
    by (rule mult_nonneg_nonneg [OF _ assms]) simp
  then have "0 \<le> 1.25 * (in_d_a inp - in_s_s inp) * (in_s_s inp - in_c inp)"
    by (simp only: mult.assoc)
  from represents_fsqrt [OF radicand_represents this] show ?thesis
    by (simp add: calc_h_s_def formula_h_s_def)
qed

lemma calc_h_s_NaN:
  assumes "(in_d_a inp - in_s_s inp) * (in_s_s inp - in_c inp) < 0"
  shows "calc_h_s inp = NaN"
proof -
  have "1.25 * ((in_d_a inp - in_s_s inp) * (in_s_s inp - in_c inp)) < 0"
    by (rule mult_pos_neg [OF _ assms]) simp
  then have neg: "1.25 * (in_d_a inp - in_s_s inp) * (in_s_s inp - in_c inp) < 0"
    by (simp only: mult.assoc)
  then have ne: "1.25 * (in_d_a inp - in_s_s inp) * (in_s_s inp - in_c inp) \<noteq> 0"
    by linarith
  have "fmul (fmul (Fin 1.25) (fsub (Fin (in_d_a inp)) (Fin (in_s_s inp))))
                    (fsub (Fin (in_s_s inp)) (Fin (in_c inp)))
      = Fin (1.25 * (in_d_a inp - in_s_s inp) * (in_s_s inp - in_c inp))"
    by (rule represents_nonzero [OF radicand_represents ne])
  then show ?thesis using neg by (simp add: calc_h_s_def)
qed

lemma calc_s_os_defined:
  assumes "0 < sa" and "0 \<le> in_p inp"
  shows "\<exists>q. calc_s_os inp sa = Inr q \<and> represents q (formula_s_os inp sa)"
proof -
  have "represents (fmul (Fin (in_p inp)) (Fin (in_d_a inp))) (in_p inp * in_d_a inp)"
    by (intro represents_fmul represents_Fin)
  moreover have "represents (fadd (fmul (fmul (Fin 2) (Fin sa)) phi_temp) (Fin (in_p inp)))
      (2 * sa * 1 + in_p inp)"
    unfolding phi_temp_def by (intro represents_fadd represents_fmul represents_Fin)
  moreover have "2 * sa * 1 + in_p inp \<noteq> 0" using assms by simp
  ultimately show ?thesis unfolding calc_s_os_def formula_s_os_def by (rule represents_pydiv)
qed

lemma compute_defined:
  assumes "0 < sa" and "0 \<le> in_p inp"
  shows "\<exists>r. compute inp sa = Inr r"
proof -
  from calc_s_os_defined [OF assms] obtain q where "calc_s_os inp sa = Inr q" by blast
  then show ?thesis by (simp add: compute_def Let_def)
qed

lemma calc_f_s_represents:
  "represents h a \<Longrightarrow> represents x b \<Longrightarrow>
     represents (calc_f_s inp h x) (2 * a * ((in_s_s inp - in_c inp) - b))"
  unfolding calc_f_s_def by (intro represents_fmul represents_fsub represents_Fin)

text \<open>On valid inputs the root below \<^verbatim>\<open>z\<close> and \<^verbatim>\<open>denominator\<close> is positive.\<close>

lemma valid_root_pos:
  assumes "valid_domain inp sa"
  shows "0 < sqrt (formula_D_m inp * (in_s inp - in_c inp))"
  using assms by (simp add: valid_domain_def formula_D_m_def)

lemma valid_formula_facts:
  assumes "valid_domain inp sa"
  shows "0 \<le> formula_z inp" and "0 < formula_phi_od inp" and "0 < formula_denominator inp"
proof -
  note r = valid_root_pos [OF assms]
  show z: "0 \<le> formula_z inp"
    using assms r by (simp add: formula_z_def valid_domain_def)
  show "0 < formula_phi_od inp"
    using z by (simp add: formula_phi_od_def)
  show "0 < formula_denominator inp"
    using assms r by (simp add: formula_denominator_def valid_domain_def)
qed

lemma compute_refines_formulas:
  assumes v: "valid_domain inp sa"
  shows "\<exists>r. compute inp sa = Inr r \<and>
           represents (res_h_s r) (formula_h_s inp) \<and>
           represents (res_s_os r) (formula_s_os inp sa) \<and>
           represents (res_f_s r) (formula_f_s inp sa) \<and>
           represents (res_D_m r) (formula_D_m inp) \<and>
           represents (res_z r) (formula_z inp) \<and>
           represents (res_phi_od r) (formula_phi_od inp) \<and>
           represents (res_denominator r) (formula_denominator inp) \<and>
           represents (res_phi_oc r) (formula_phi_oc inp sa) \<and>
           (formula_phi_oc inp sa \<noteq> 0 \<longrightarrow> represents (res_sigma r) (formula_sigma inp sa))"
proof -
  have sa: "0 < sa" and p: "0 \<le> in_p inp" using v by (simp_all add: valid_domain_def)
  from calc_s_os_defined [OF sa p] obtain x
    where x: "calc_s_os inp sa = Inr x" "represents x (formula_s_os inp sa)" by blast
  from compute_defined [OF sa p] obtain r where r: "compute inp sa = Inr r" by blast
  note f = compute_fields [OF r]
  have xs: "res_s_os r = x" using f(1) x(1) by simp
  have "0 \<le> (in_d_a inp - in_s_s inp) * (in_s_s inp - in_c inp)"
    using v by (simp add: valid_domain_def)
  then have h: "represents (res_h_s r) (formula_h_s inp)"
    unfolding f(3) by (rule calc_h_s_represents)
  have fs: "represents (res_f_s r) (formula_f_s inp sa)"
    unfolding f(4) formula_f_s_def using h x(2) xs by (intro calc_f_s_represents) simp_all
  have dm: "represents (res_D_m r) (formula_D_m inp)"
    unfolding f(5) calc_D_m_def formula_D_m_def by (intro represents_fsub represents_Fin)
  have rp: "0 \<le> formula_D_m inp * (in_s inp - in_c inp)"
    using v by (simp add: valid_domain_def formula_D_m_def)
  have root: "represents (fsqrt (fmul (res_D_m r) (fsub (Fin (in_s inp)) (Fin (in_c inp)))))
      (sqrt (formula_D_m inp * (in_s inp - in_c inp)))"
    by (intro represents_fsqrt represents_fmul represents_fsub represents_Fin dm rp)
  have rne: "sqrt (formula_D_m inp * (in_s inp - in_c inp)) \<noteq> 0"
    using valid_root_pos [OF v] by linarith
  have z: "represents (res_z r) (formula_z inp)"
    unfolding f(6) calc_z_def formula_z_def
    by (intro represents_fdiv represents_Fin root rne)
  have z175: "represents (fadd (res_z r) (Fin 1.75)) (formula_z inp + 1.75)"
    by (intro represents_fadd z represents_Fin)
  have zne: "formula_z inp + 1.75 \<noteq> 0" using valid_formula_facts(1) [OF v] by simp
  have "fne (fadd (res_z r) (Fin 1.75)) (Fin 0)"
    using represents_fne_zero [OF z175] zne by blast
  then have "res_phi_od r = fdiv (Fin 2) (fadd (res_z r) (Fin 1.75))"
    unfolding f(7) calc_phi_od_def by (simp only: if_True)
  then have od: "represents (res_phi_od r) (formula_phi_od inp)"
    unfolding formula_phi_od_def using represents_fdiv [OF represents_Fin z175 zne]
    by (simp only:)
  have den: "represents (res_denominator r) (formula_denominator inp)"
    unfolding f(8) calc_denominator_def formula_denominator_def
    by (intro represents_fmul represents_fsub represents_Fin root)
  have dne: "formula_denominator inp \<noteq> 0" using valid_formula_facts(3) [OF v] by simp
  have "fne (res_denominator r) (Fin 0)"
    using represents_fne_zero [OF den] dne by blast
  then have "res_phi_oc r =
      fmul (res_phi_od r) (fadd (Fin 1) (fdiv (res_f_s r) (res_denominator r)))"
    using f(9) unfolding calc_phi_oc_def by (simp only: if_True)
  then have oc: "represents (res_phi_oc r) (formula_phi_oc inp sa)"
    unfolding formula_phi_oc_def
    using represents_fmul [OF od represents_fadd [OF represents_Fin
          represents_fdiv [OF fs den dne]]]
    by (simp only:)
  have sg: "represents (res_sigma r) (formula_sigma inp sa)" if "formula_phi_oc inp sa \<noteq> 0"
  proof -
    have "2 * formula_phi_oc inp sa * (in_s inp - in_c inp) \<noteq> 0"
      using that v by (simp add: valid_domain_def)
    then show ?thesis
      unfolding f(10) calc_sigma_def formula_sigma_def
      by (intro represents_fdiv represents_fmul represents_fsub represents_Fin oc)
  qed
  show ?thesis using r h x(2) xs fs dm z od den oc sg by blast
qed

lemma sqrt_default_radicand:
  "43.835 < sqrt (1.25 * 71.5 * 21.5)" "sqrt (1.25 * 71.5 * 21.5) < 43.845"
proof -
  have "(43.835 :: real)\<^sup>2 < 1.25 * 71.5 * 21.5" by (simp add: power2_eq_square)
  then show "43.835 < sqrt (1.25 * 71.5 * 21.5)" by (rule real_less_rsqrt)
  have "(1.25 * 71.5 * 21.5 :: real) < 43.845\<^sup>2" by (simp add: power2_eq_square)
  then show "sqrt (1.25 * 71.5 * 21.5) < 43.845" by (intro real_less_lsqrt) simp_all
qed

lemma calc_h_s_default: "calc_h_s default_inputs = Fin (sqrt (1.25 * 71.5 * 21.5))"
proof -
  have "0 \<le> (in_d_a default_inputs - in_s_s default_inputs)
      * (in_s_s default_inputs - in_c default_inputs)"
    by (simp add: default_inputs_def)
  from calc_h_s_represents [OF this]
  have "represents (calc_h_s default_inputs) (sqrt (1.25 * 71.5 * 21.5))"
    by (simp add: formula_h_s_def default_inputs_def)
  moreover have "sqrt (1.25 * 71.5 * 21.5) \<noteq> 0"
    by simp
  ultimately show ?thesis by (rule represents_nonzero)
qed

lemma fsub_self: "fsub (Fin a) (Fin a) = Fin 0"
  by (simp add: fsub_def fadd_def is_inf_def is_zero_def signed_zero_def)

lemma fdiv_by_zero_not_finite:
  assumes "is_zero y"
  shows "\<not> represents (fdiv x y) a"
  using assms
  by (cases x) (auto simp: fdiv_def represents_def is_zero_def is_inf_def signed_inf_def)

lemma fmul_zero_not_nonzero:
  assumes "is_zero y"
  shows "is_zero (fmul x y) \<or> fmul x y = NaN"
  using assms
  by (cases x) (auto simp: fmul_def is_zero_def is_inf_def signed_zero_def)

lemma calc_sigma_not_finite:
  assumes "in_s inp = in_c inp"
  shows "\<not> represents (calc_sigma inp phi_oc) a"
proof -
  have z: "is_zero (fsub (Fin (in_s inp)) (Fin (in_c inp)))"
    using assms by (simp add: fsub_self is_zero_def)
  from fmul_zero_not_nonzero [OF z, of "fmul (Fin 2) phi_oc"]
  show ?thesis
  proof
    assume "is_zero (fmul (fmul (Fin 2) phi_oc) (fsub (Fin (in_s inp)) (Fin (in_c inp))))"
    then show ?thesis unfolding calc_sigma_def by (rule fdiv_by_zero_not_finite)
  next
    assume "fmul (fmul (Fin 2) phi_oc) (fsub (Fin (in_s inp)) (Fin (in_c inp))) = NaN"
    then show ?thesis by (simp add: calc_sigma_def represents_def)
  qed
qed


lemma undefined_arithmetic_rendered:
  assumes "interpolate_stress g temperature_ranges stress_data_12x1mf (in_T inp)
             (real_of_int (total_hours inp)) = Inr (Some sa)"
    and "0 < sa" and "0 \<le> in_p inp"
  shows "\<exists>r. run g inp = Rendered (total_hours inp) r \<and>
           ((in_d_a inp - in_s_s inp) * (in_s_s inp - in_c inp) < 0 \<longrightarrow>
              res_h_s r = NaN \<and> res_f_s r = NaN \<and>
              (fne (res_denominator r) (Fin 0) \<longrightarrow>
                 res_phi_oc r = NaN \<and> res_sigma r = NaN \<and> res_safety_factor r = NaN \<and>
                 \<not> res_strength_ok r)) \<and>
           (in_s inp = in_c inp \<longrightarrow> (\<forall>a. \<not> represents (res_sigma r) a))"
proof -
  from compute_defined [OF assms(2,3)] obtain r where c: "compute inp sa = Inr r" by blast
  note f = compute_fields [OF c]
  have run: "run g inp = Rendered (total_hours inp) r"
    using assms(1) c by (simp add: run_def)
  have n: "res_h_s r = NaN \<and> res_f_s r = NaN \<and>
              (fne (res_denominator r) (Fin 0) \<longrightarrow>
                 res_phi_oc r = NaN \<and> res_sigma r = NaN \<and> res_safety_factor r = NaN \<and>
                 \<not> res_strength_ok r)"
    if "(in_d_a inp - in_s_s inp) * (in_s_s inp - in_c inp) < 0"
  proof -
    have h: "res_h_s r = NaN" using calc_h_s_NaN [OF that] f(3) by simp
    have fs: "res_f_s r = NaN" using f(4) h by (simp add: calc_f_s_def)
    have "res_phi_oc r = NaN \<and> res_sigma r = NaN \<and> res_safety_factor r = NaN \<and>
                 \<not> res_strength_ok r" if d: "fne (res_denominator r) (Fin 0)"
    proof -
      have oc: "res_phi_oc r = NaN" using f(9) fs d by (simp add: calc_phi_oc_def)
      have sg: "res_sigma r = NaN" using f(10) oc by (simp add: calc_sigma_def)
      have "res_safety_factor r = NaN" using f(11) sg by (simp add: calc_safety_factor_def)
      moreover have "\<not> res_strength_ok r" using f(12) sg by simp
      ultimately show ?thesis using oc sg by blast
    qed
    then show ?thesis using h fs by blast
  qed
  have "\<forall>a. \<not> represents (res_sigma r) a" if "in_s inp = in_c inp"
    using calc_sigma_not_finite [OF that] f(10) by simp
  then show ?thesis using run n by blast
qed

lemma negative_root_gives_NaN:
  assumes "formula_D_m inp * (in_s inp - in_c inp) < 0" and "compute inp sa = Inr r"
  shows "res_z r = NaN" and "res_phi_od r = NaN" and "res_denominator r = NaN"
    and "res_phi_oc r = NaN" and "res_sigma r = NaN" and "res_safety_factor r = NaN"
    and "\<not> res_strength_ok r"
proof -
  note f = compute_fields [OF assms(2)]
  have dm: "represents (res_D_m r) (formula_D_m inp)"
    unfolding f(5) calc_D_m_def formula_D_m_def by (intro represents_fsub represents_Fin)
  have "represents (fmul (res_D_m r) (fsub (Fin (in_s inp)) (Fin (in_c inp))))
      (formula_D_m inp * (in_s inp - in_c inp))"
    by (intro represents_fmul represents_fsub represents_Fin dm)
  moreover have "formula_D_m inp * (in_s inp - in_c inp) \<noteq> 0" using assms(1) by linarith
  ultimately have "fmul (res_D_m r) (fsub (Fin (in_s inp)) (Fin (in_c inp)))
      = Fin (formula_D_m inp * (in_s inp - in_c inp))"
    by (rule represents_nonzero)
  then have root: "fsqrt (fmul (res_D_m r) (fsub (Fin (in_s inp)) (Fin (in_c inp)))) = NaN"
    using assms(1) by simp
  show z: "res_z r = NaN" using f(6) root by (simp add: calc_z_def)
  show od: "res_phi_od r = NaN" using f(7) z by (simp add: calc_phi_od_def)
  show den: "res_denominator r = NaN" using f(8) root by (simp add: calc_denominator_def)
  show oc: "res_phi_oc r = NaN" using f(9) od den by (simp add: calc_phi_oc_def)
  show sg: "res_sigma r = NaN" using f(10) oc by (simp add: calc_sigma_def)
  show "res_safety_factor r = NaN" using f(11) sg by (simp add: calc_safety_factor_def)
  show "\<not> res_strength_ok r" using f(12) sg by simp
qed

lemma calc_denominator_represents:
  assumes "0 \<le> formula_D_m inp * (in_s inp - in_c inp)"
  shows "represents (calc_denominator inp (calc_D_m inp)) (formula_denominator inp)"
proof -
  have dm: "represents (calc_D_m inp) (formula_D_m inp)"
    unfolding calc_D_m_def formula_D_m_def by (intro represents_fsub represents_Fin)
  show ?thesis
    unfolding calc_denominator_def formula_denominator_def
    by (intro represents_fmul represents_fsqrt represents_fsub represents_Fin dm assms)
qed

lemma zero_pressure_zero_sigma:
  assumes i: "interpolate_stress g temperature_ranges stress_data_12x1mf (in_T inp)
             (real_of_int (total_hours inp)) = Inr (Some sa)"
    and v: "valid_domain inp sa" and p: "in_p inp = 0"
  shows "\<exists>r. run g inp = Rendered (total_hours inp) r \<and> represents (res_s_os r) 0 \<and>
           represents (res_sigma r) 0 \<and> res_safety_factor r = Fin 0 \<and> res_strength_ok r"
proof -
  from compute_refines_formulas [OF v] obtain r
    where c: "compute inp sa = Inr r"
      and x: "represents (res_s_os r) (formula_s_os inp sa)"
      and sg: "formula_phi_oc inp sa \<noteq> 0 \<longrightarrow> represents (res_sigma r) (formula_sigma inp sa)"
    by blast
  note f = compute_fields [OF c]
  have run: "run g inp = Rendered (total_hours inp) r"
    using i c by (simp add: run_def)
  have sos: "formula_s_os inp sa = 0" using p by (simp add: formula_s_os_def)
  have "0 \<le> (in_d_a inp - in_s_s inp) * (in_s_s inp - in_c inp)"
    using v by (simp add: valid_domain_def)
  then have "0 \<le> formula_h_s inp" by (rule formula_h_s_nonneg)
  moreover have "0 \<le> in_s_s inp - in_c inp" using v by (simp add: valid_domain_def)
  ultimately have fs: "0 \<le> formula_f_s inp sa"
    using sos by (simp add: formula_f_s_def)
  have "0 \<le> formula_f_s inp sa / formula_denominator inp"
    using fs valid_formula_facts(3) [OF v] by simp
  then have "0 < formula_phi_oc inp sa"
    unfolding formula_phi_oc_def using valid_formula_facts(2) [OF v]
    by (intro mult_pos_pos) simp_all
  then have "represents (res_sigma r) (formula_sigma inp sa)" using sg by simp
  moreover have "formula_sigma inp sa = 0" using p by (simp add: formula_sigma_def)
  ultimately have s0: "represents (res_sigma r) 0" by simp
  have "res_safety_factor r = Fin 0"
    using f(11) represents_fne_zero [OF s0] by (simp add: calc_safety_factor_def)
  moreover have "res_strength_ok r"
    using f(12) represents_fle [OF s0 represents_Fin, of sa] v by (simp add: valid_domain_def)
  ultimately show ?thesis using run x sos s0 by auto
qed

section \<open>The fallbacks of steps 5 and 6\<close>

text \<open>The \<^verbatim>\<open>else 0\<close> of step 5 and the \<^verbatim>\<open>else\<close> of step 6 are never taken together, so
  \<^verbatim>\<open>phi_oc\<close> is a numpy scalar in every run and step 7 divides as numpy does.\<close>

lemma fadd_zero_cases:
  assumes "\<not> fne (fadd z (Fin 1.75)) (Fin 0)"
  shows "z = Fin (- 1.75)"
  using assms
  by (cases z) (auto simp: fne_def fadd_def is_inf_def is_zero_def signed_zero_def split: if_splits)

lemma fdiv_finite_nonzero:
  assumes "fdiv x y = Fin a" and "a \<noteq> 0"
  shows "\<exists>b. y = Fin b \<and> b \<noteq> 0"
  using assms
  by (cases x; cases y)
     (auto simp: fdiv_def is_inf_def is_zero_def signed_zero_def signed_inf_def split: if_splits)

lemma fsqrt_finite_nonzero:
  assumes "fsqrt x = Fin b" and "b \<noteq> 0"
  shows "\<exists>r. x = Fin r \<and> 0 < r"
  using assms by (cases x) (auto split: if_splits simp: less_le)

lemma fmul_finite_nonzero:
  assumes "fmul x y = Fin r" and "r \<noteq> 0"
  shows "\<exists>a b. x = Fin a \<and> y = Fin b \<and> a \<noteq> 0 \<and> b \<noteq> 0"
  using assms
  by (cases x; cases y)
     (auto simp: fmul_def is_inf_def is_zero_def signed_zero_def signed_inf_def split: if_splits)

lemma step5_fallback_excludes_step6_fallback:
  assumes "\<not> fne (fadd (calc_z inp D_m) (Fin 1.75)) (Fin 0)"
  shows "fne (calc_denominator inp D_m) (Fin 0)"
proof -
  let ?y = "fsub (Fin (in_s inp)) (Fin (in_c inp))"
  have "calc_z inp D_m = Fin (- 1.75)" using assms by (rule fadd_zero_cases)
  then obtain b where b: "fsqrt (fmul D_m ?y) = Fin b" "b \<noteq> 0"
    unfolding calc_z_def using fdiv_finite_nonzero [of _ _ "- 1.75"] by fastforce
  then obtain r where r: "fmul D_m ?y = Fin r" "0 < r"
    using fsqrt_finite_nonzero by blast
  then obtain u v where uv: "D_m = Fin u" "?y = Fin v" "u \<noteq> 0" "v \<noteq> 0"
    using fmul_finite_nonzero [of D_m ?y r] by auto
  have rb: "represents (fsqrt (fmul D_m ?y)) b" using b(1) by simp
  have ry: "represents ?y v" using uv(2) by simp
  have "represents (fmul (fmul (Fin 2) ?y) (fsqrt (fmul D_m ?y))) (2 * v * b)"
    by (intro represents_fmul represents_Fin rb ry)
  moreover have "2 * v * b \<noteq> 0" using uv(4) b(2) by simp
  ultimately show ?thesis
    unfolding calc_denominator_def using represents_fne_zero by blast
qed

section \<open>The corrosion allowance in the formulas\<close>










section \<open>The default query and runs that reach step 2\<close>

text \<open>The query of the default inputs, 545 degrees and 269142 hours, lies in a Delaunay
  triangle of the table.\<close>

lemma delaunay_default_query:
  "delaunay_triangle points_12x1mf (540, 200000) (540, 300000) (550, 300000)"
  by (simp add: delaunay_triangle_def orient_def in_circle_def points_12x1mf_eq)

lemma interpolate_default_query:
  "\<exists>sa. interpolate_stress griddata_linear temperature_ranges stress_data_12x1mf 545 269142
          = Inr (Some sa) \<and> 27 \<le> sa \<and> sa \<le> 173"
proof -
  let ?A = "((540, 200000), 62) :: point \<times> real"
  let ?B = "((540, 300000), 58) :: point \<times> real"
  let ?C = "((550, 300000), 52) :: point \<times> real"
  have mem: "?A \<in> set (zip points_12x1mf values_12x1mf)"
    "?B \<in> set (zip points_12x1mf values_12x1mf)" "?C \<in> set (zip points_12x1mf values_12x1mf)"
    by (simp_all add: points_12x1mf_eq values_12x1mf_eq)
  have "in_triangle (540, 200000) (540, 300000) (550, 300000) (545, 269142)"
    by (simp add: in_triangle_def barycentric_def orient_def)
  then have "usable_triangle points_12x1mf (545, 269142) (?A, ?B, ?C)"
    using delaunay_default_query by (simp add: usable_triangle_def)
  moreover have "(?A, ?B, ?C) \<in> set (triples (zip points_12x1mf values_12x1mf))"
    using mem unfolding set_triples by blast
  ultimately obtain v where v: "griddata_linear points_12x1mf values_12x1mf (545, 269142) = GdValue v"
    using griddata_linear_some [OF length_values_12x1mf not_collinear_12x1mf] by blast
  from griddata_linear_bounds [OF v values_12x1mf_range] have "27 \<le> v \<and> v \<le> 173" .
  then show ?thesis using v by (simp add: interpolate_stress_12x1mf)
qed

lemma run_renders:
  assumes "in_T inp = 545" and "total_hours inp = 269142" and "0 \<le> in_p inp"
  shows "\<exists>sa r. 27 \<le> sa \<and> sa \<le> 173 \<and> compute inp sa = Inr r \<and>
           run griddata_linear inp = Rendered 269142 r"
proof -
  from interpolate_default_query obtain sa
    where sa: "interpolate_stress griddata_linear temperature_ranges stress_data_12x1mf 545 269142
                 = Inr (Some sa)" "27 \<le> sa" "sa \<le> 173"
    by blast
  from compute_defined [of sa inp] sa(2) assms(3) obtain r where r: "compute inp sa = Inr r"
    by auto
  have "run griddata_linear inp = Rendered 269142 r"
    using sa(1) r assms(1,2) by (simp add: run_def)
  then show ?thesis using sa r by blast
qed

lemma default_inputs_fields:
  "in_T default_inputs = 545" "total_hours default_inputs = 269142" "0 \<le> in_p default_inputs"
  by (simp_all add: default_inputs_def total_hours_def)


section \<open>\<^verbatim>\<open>interpolate_stress\<close> on the table\<close>

lemma values_12x1mf_extremes:
  "Min (set values_12x1mf) = 27" "Max (set values_12x1mf) = 173"
proof -
  have m: "27 \<in> set values_12x1mf" "173 \<in> set values_12x1mf"
    by (simp_all add: values_12x1mf_eq)
  show "Min (set values_12x1mf) = 27"
    using values_12x1mf_range m(1) by (intro Min_eqI) auto
  show "Max (set values_12x1mf) = 173"
    using values_12x1mf_range m(2) by (intro Max_eqI) auto
qed

text \<open>The point 20 degrees, 400000 hours is outside the hull: the line through
  (20, 100000) and (450, 400000) separates it from the table.\<close>

lemma outside_query_not_in_hull: "\<not> in_convex_hull points_12x1mf (20, 400000)"
proof -
  have "\<forall>a \<in> set points_12x1mf. (- 30000) * fst a + 43 * snd a \<le> 3700000"
    by (simp add: points_12x1mf_eq)
  moreover have "(3700000 :: real) < (- 30000) * fst (20 :: real, 400000 :: real)
      + 43 * snd (20 :: real, 400000 :: real)"
    by simp
  ultimately show ?thesis by (rule separated_not_in_hull)
qed

lemma interpolate_outside_hull:
  assumes "collect_points tr sd = Inr (pts, vals)" and "\<not> in_convex_hull pts (t, h)"
  shows "interpolate_stress griddata_linear tr sd t h = Inr None"
proof -
  have "griddata_linear pts vals (t, h) \<noteq> GdValue v" for v
    using griddata_linear_in_hull assms(2) by blast
  then show ?thesis
    using assms(1) by (auto simp: interpolate_stress_def split: gd_result.splits)
qed

text \<open>In the exact arithmetic of the model the interpolation returns the tabulated value
  at a cell of the table. The library computes the barycentric coordinates in floating
  point, so that its value there may differ from the tabulated one in the last place;
  that rounding is outside this model.\<close>

lemma interpolate_at_cell_12x1mf:
  assumes "i < length temperature_ranges" and "cell stress_data_12x1mf h i = Inr (Some v)"
  shows "interpolate_stress griddata_linear temperature_ranges stress_data_12x1mf
           (temperature_ranges ! i) h = Inr (Some v)"
proof -
  let ?q = "(temperature_ranges ! i, h)"
  have "h \<in> set hours_keys" using assms(2) by (rule cell_12x1mf_hours)
  then have qv: "(?q, v) \<in> set (zip points_12x1mf values_12x1mf)"
    unfolding collect_points_cells(2) [OF collect_points_12x1mf_names] using assms by blast
  then have "?q \<in> set points_12x1mf" by (rule set_zip_leftD)
  from delaunay_corner_12x1mf [OF this] obtain a b c
    where "a \<in> set points_12x1mf" "b \<in> set points_12x1mf" "c \<in> set points_12x1mf"
      "delaunay_triangle points_12x1mf a b c" "?q = a \<or> ?q = b \<or> ?q = c"
    by blast
  then have "griddata_linear points_12x1mf values_12x1mf ?q = GdValue v"
    using griddata_linear_exact [OF length_values_12x1mf distinct_points_12x1mf qv] by blast
  then show ?thesis by (simp add: interpolate_stress_12x1mf)
qed

lemma interpolate_range_12x1mf:
  assumes "interpolate_stress griddata_linear temperature_ranges stress_data_12x1mf t h
             = Inr (Some v)"
  shows "27 \<le> v \<and> v \<le> 173"
proof -
  have "griddata_linear points_12x1mf values_12x1mf (t, h) = GdValue v"
    using assms by (simp add: interpolate_stress_12x1mf split: gd_result.splits)
  from griddata_linear_bounds [OF this values_12x1mf_range] show ?thesis .
qed

text \<open>The cell 540 degrees, 200000 hours of the table holds 62.\<close>

lemma interpolate_540_200000:
  "interpolate_stress griddata_linear temperature_ranges stress_data_12x1mf 540 200000
     = Inr (Some 62)"
proof -
  have a: "14 < length temperature_ranges" and b: "temperature_ranges ! 14 = 540"
    by (simp_all add: temperature_ranges_def)
  have c: "cell stress_data_12x1mf 200000 14 = Inr (Some 62)"
    by (simp add: cell_def stress_data_12x1mf_def)
  from interpolate_at_cell_12x1mf [OF a c] show ?thesis unfolding b .
qed

lemma run_at_540_200000:
  assumes "in_T inp = 540" and "total_hours inp = 200000" and "compute inp 62 = Inr r"
  shows "run griddata_linear inp = Rendered 200000 r"
  using assms interpolate_540_200000 by (simp add: run_def)

lemma shown_Rendered [simp]: "shown field (Rendered th r) = Some (field r)"
  by (simp add: shown_def)


section \<open>The corrosion allowance in a run\<close>











section \<open>The properties of the specification\<close>

text \<open>
  C1. For a query point outside the convex hull of the points of the table that have a
  value, and for a table none of whose cells has a value, \<^verbatim>\<open>interpolate_stress\<close> returns
  \<open>None\<close>; an exception of the interpolation, and its fill value NaN, become \<open>None\<close> as
  well. The first and the last two hold for every \<^verbatim>\<open>griddata\<close>, the second for the
  Delaunay model of it.
\<close>

theorem interpolate_stress_undeterminable:
  assumes "collect_points tr sd = Inr (pts, vals)"
  shows "(pts = [] \<longrightarrow> interpolate_stress g tr sd t h = Inr None) \<and>
         (\<not> in_convex_hull pts (t, h) \<longrightarrow>
            interpolate_stress griddata_linear tr sd t h = Inr None) \<and>
         (g pts vals (t, h) = GdRaise \<longrightarrow> interpolate_stress g tr sd t h = Inr None) \<and>
         (g pts vals (t, h) = GdNaN \<longrightarrow> interpolate_stress g tr sd t h = Inr None)"
  using assms interpolate_outside_hull [OF assms]
  by (auto simp: interpolate_stress_def)

theorem interpolate_stress_undeterminable_witness:
  "collect_points [20] [10000 \<mapsto> [None], 100000 \<mapsto> [None], 200000 \<mapsto> [None],
       300000 \<mapsto> [None], 400000 \<mapsto> [None]] = Inr ([], []) \<and>
   interpolate_stress griddata_linear [20] [10000 \<mapsto> [None], 100000 \<mapsto> [None],
       200000 \<mapsto> [None], 300000 \<mapsto> [None], 400000 \<mapsto> [None]] 20 100000 = Inr None \<and>
   \<not> in_convex_hull points_12x1mf (20, 400000) \<and>
   interpolate_stress griddata_linear temperature_ranges stress_data_12x1mf 20 400000
     = Inr None \<and>
   griddata_linear [(500, 10000)] [133] (500, 10000) = GdRaise \<and>
   interpolate_stress griddata_linear [500] [10000 \<mapsto> [Some 133], 100000 \<mapsto> [None],
       200000 \<mapsto> [None], 300000 \<mapsto> [None], 400000 \<mapsto> [None]] 500 10000 = Inr None"
proof -
  let ?none = "[10000 \<mapsto> [None], 100000 \<mapsto> [None], 200000 \<mapsto> [None],
       300000 \<mapsto> [None], 400000 \<mapsto> [None]] :: stress_data"
  let ?one = "[10000 \<mapsto> [Some 133], 100000 \<mapsto> [None],
       200000 \<mapsto> [None], 300000 \<mapsto> [None], 400000 \<mapsto> [None]] :: stress_data"
  have e: "collect_points [20] ?none = Inr ([], [])"
    by (simp add: collect_points_def hours_keys_def cell_def)
  have o: "collect_points [500] ?one = Inr ([(500, 10000)], [133])"
    by (simp add: collect_points_def hours_keys_def cell_def)
  have r: "griddata_linear [(500, 10000)] [133] (500, 10000) = GdRaise"
    by (simp add: griddata_linear_def collinear_points_def orient_def)
  show ?thesis
    using interpolate_stress_undeterminable [OF e, where g = griddata_linear and t = 20 and h = 100000]
      interpolate_stress_undeterminable [OF collect_points_12x1mf_names,
        where g = griddata_linear and t = 20 and h = 400000]
      interpolate_stress_undeterminable [OF o, where g = griddata_linear and t = 500 and h = 10000]
      e r outside_query_not_in_hull
    by simp
qed

text \<open>
  C3. Step 2 computes \<open>h_s = sqrt (1.25 * (d_a - s_s) * (s_s - c))\<close>, and the total hours
  are the sum of the two inputs. For the default inputs the total is 269142 hours and
  \<open>h_s = sqrt (1.25 * 71.5 * 21.5)\<close>, which is 43.84 to two decimals, where the specification
  has 43.82.
\<close>

theorem step2_h_s:
  assumes "run g inp = Rendered th r"
  shows "th = in_operating_hours inp + in_planned_hours inp \<and>
         res_h_s r = fsqrt (fmul (fmul (Fin 1.25) (fsub (Fin (in_d_a inp)) (Fin (in_s_s inp))))
                                 (fsub (Fin (in_s_s inp)) (Fin (in_c inp)))) \<and>
         (0 \<le> (in_d_a inp - in_s_s inp) * (in_s_s inp - in_c inp) \<longrightarrow>
            represents (res_h_s r)
              (sqrt (1.25 * (in_d_a inp - in_s_s inp) * (in_s_s inp - in_c inp)))) \<and>
         (inp = default_inputs \<longrightarrow>
            th = 269142 \<and> res_h_s r = Fin (sqrt (1.25 * 71.5 * 21.5)) \<and>
            43.835 < sqrt (1.25 * 71.5 * 21.5) \<and> sqrt (1.25 * 71.5 * 21.5) < 43.845)"
proof -
  from run_Rendered [OF assms] obtain sa
    where th: "th = total_hours inp" and c: "compute inp sa = Inr r" by blast
  note f = compute_fields [OF c]
  have a: "th = in_operating_hours inp + in_planned_hours inp"
    using th by (simp add: total_hours_def)
  have b: "res_h_s r = fsqrt (fmul (fmul (Fin 1.25) (fsub (Fin (in_d_a inp)) (Fin (in_s_s inp))))
                                 (fsub (Fin (in_s_s inp)) (Fin (in_c inp))))"
    using f(3) by (simp only: calc_h_s_def)
  have d: "represents (res_h_s r)
              (sqrt (1.25 * (in_d_a inp - in_s_s inp) * (in_s_s inp - in_c inp)))"
    if "0 \<le> (in_d_a inp - in_s_s inp) * (in_s_s inp - in_c inp)"
    using calc_h_s_represents [OF that] f(3) by (simp only: formula_h_s_def)
  have e: "th = 269142 \<and> res_h_s r = Fin (sqrt (1.25 * 71.5 * 21.5))" if "inp = default_inputs"
    using that a f(3) calc_h_s_default by (simp add: default_inputs_def)
  show ?thesis using a b d e sqrt_default_radicand by blast
qed


theorem step2_h_s_witness:
  "\<exists>r. run griddata_linear default_inputs = Rendered 269142 r \<and>
       0 \<le> (in_d_a default_inputs - in_s_s default_inputs)
             * (in_s_s default_inputs - in_c default_inputs) \<and>
       represents (res_h_s r) (sqrt (1.25 * (in_d_a default_inputs - in_s_s default_inputs)
             * (in_s_s default_inputs - in_c default_inputs))) \<and>
       res_h_s r = Fin (sqrt (1.25 * 71.5 * 21.5)) \<and>
       43.835 < sqrt (1.25 * 71.5 * 21.5) \<and> sqrt (1.25 * 71.5 * 21.5) < 43.845"
proof -
  from run_renders [OF default_inputs_fields] obtain r
    where r: "run griddata_linear default_inputs = Rendered 269142 r" by blast
  have n: "0 \<le> (in_d_a default_inputs - in_s_s default_inputs)
             * (in_s_s default_inputs - in_c default_inputs)"
    by (simp add: default_inputs_def)
  from step2_h_s [OF r] r n show ?thesis by blast
qed

theorem step2_h_s_rounds_to_43_84:
  "shown res_h_s (run griddata_linear default_inputs) = Some (Fin (sqrt (1.25 * 71.5 * 21.5))) \<and>
   \<not> sqrt (1.25 * 71.5 * 21.5) < 43.825"
proof -
  from run_renders [OF default_inputs_fields] obtain sa r
    where c: "compute default_inputs sa = Inr r"
      and r: "run griddata_linear default_inputs = Rendered 269142 r" by blast
  have "res_h_s r = Fin (sqrt (1.25 * 71.5 * 21.5))"
    using compute_fields(3) [OF c] calc_h_s_default by simp
  moreover have "\<not> sqrt (1.25 * 71.5 * 21.5) < 43.825"
    using sqrt_default_radicand(1) by simp
  ultimately show ?thesis using r by simp
qed



text \<open>
  C5. When \<^verbatim>\<open>interpolate_stress\<close> returns \<open>None\<close> for the temperature and the total hours,
  the run stops after the message that the allowable stress cannot be determined: no
  result of steps 2 to 8 is rendered.
\<close>

theorem undeterminable_stress_stops_run:
  assumes "interpolate_stress g temperature_ranges stress_data_12x1mf (in_T inp)
             (real_of_int (total_hours inp)) = Inr None"
  shows "run g inp = Stopped \<and> (\<forall>th r. run g inp \<noteq> Rendered th r)"
  using assms by (simp add: run_def)

theorem undeterminable_stress_stops_run_witness:
  "interpolate_stress griddata_linear temperature_ranges stress_data_12x1mf
     (in_T (default_inputs\<lparr>in_T := 20, in_operating_hours := 350000\<rparr>))
     (real_of_int (total_hours (default_inputs\<lparr>in_T := 20, in_operating_hours := 350000\<rparr>)))
     = Inr None \<and>
   run griddata_linear (default_inputs\<lparr>in_T := 20, in_operating_hours := 350000\<rparr>) = Stopped"
proof -
  let ?inp = "default_inputs\<lparr>in_T := 20, in_operating_hours := 350000\<rparr>"
  have q: "in_T ?inp = 20" "real_of_int (total_hours ?inp) = 400000"
    by (simp_all add: default_inputs_def total_hours_def)
  have n: "interpolate_stress griddata_linear temperature_ranges stress_data_12x1mf
     (in_T ?inp) (real_of_int (total_hours ?inp)) = Inr None"
    unfolding q
    by (rule interpolate_outside_hull [OF collect_points_12x1mf_names outside_query_not_in_hull])
  from undeterminable_stress_stops_run [OF n] n show ?thesis by simp
qed

text \<open>
  C6. The calculation has no failure for inputs outside the domain of its formulas. With a
  determined, positive allowable stress and a pressure that is not negative it raises
  nothing and renders every step: a negative radicand in step 2 makes \<^verbatim>\<open>h_s\<close> and
  \<^verbatim>\<open>f_s\<close> NaN, and, where \<^verbatim>\<open>denominator\<close> is not zero, \<^verbatim>\<open>phi_oc\<close>, \<^verbatim>\<open>sigma\<close> and the
  safety factor too, with the strength condition reported as not met; with \<open>s = c\<close> the
  division of step 7 gives an infinity or NaN for \<^verbatim>\<open>sigma\<close>.
\<close>

theorem undefined_arithmetic_is_rendered:
  assumes "interpolate_stress g temperature_ranges stress_data_12x1mf (in_T inp)
             (real_of_int (total_hours inp)) = Inr (Some sa)"
    and "0 < sa" and "0 \<le> in_p inp"
  shows "\<exists>r. run g inp = Rendered (total_hours inp) r \<and>
           ((in_d_a inp - in_s_s inp) * (in_s_s inp - in_c inp) < 0 \<longrightarrow>
              res_h_s r = NaN \<and> res_f_s r = NaN \<and>
              (fne (res_denominator r) (Fin 0) \<longrightarrow>
                 res_phi_oc r = NaN \<and> res_sigma r = NaN \<and> res_safety_factor r = NaN \<and>
                 \<not> res_strength_ok r)) \<and>
           (in_s inp = in_c inp \<longrightarrow> (\<forall>a. \<not> represents (res_sigma r) a))"
  using assms by (rule undefined_arithmetic_rendered)

theorem undefined_arithmetic_is_rendered_witness:
  "(\<exists>r. run griddata_linear
          \<lparr>in_D_a = 325, in_s = 38, in_d_a = 93, in_s_s = 21.5, in_p = 14, in_T = 540,
           in_operating_hours = 150000, in_planned_hours = 50000, in_c = 25\<rparr>
        = Rendered 200000 r \<and>
        res_h_s r = NaN \<and> res_f_s r = NaN \<and> fne (res_denominator r) (Fin 0) \<and>
        res_sigma r = NaN \<and> res_safety_factor r = NaN \<and> \<not> res_strength_ok r) \<and>
   (\<exists>r. run griddata_linear (default_inputs\<lparr>in_c := 38\<rparr>) = Rendered 269142 r \<and>
        (\<forall>a. \<not> represents (res_sigma r) a))"
proof -
  let ?a = "\<lparr>in_D_a = 325, in_s = 38, in_d_a = 93, in_s_s = 21.5, in_p = 14, in_T = 540,
           in_operating_hours = 150000, in_planned_hours = 50000, in_c = 25\<rparr>"
  let ?b = "default_inputs\<lparr>in_c := 38\<rparr>"
  have ia: "interpolate_stress griddata_linear temperature_ranges stress_data_12x1mf (in_T ?a)
             (real_of_int (total_hours ?a)) = Inr (Some 62)"
    using interpolate_540_200000 by (simp add: total_hours_def)
  from undefined_arithmetic_is_rendered [OF ia] obtain r
    where r: "run griddata_linear ?a = Rendered (total_hours ?a) r"
      and n: "(in_d_a ?a - in_s_s ?a) * (in_s_s ?a - in_c ?a) < 0 \<longrightarrow>
              res_h_s r = NaN \<and> res_f_s r = NaN \<and>
              (fne (res_denominator r) (Fin 0) \<longrightarrow>
                 res_phi_oc r = NaN \<and> res_sigma r = NaN \<and> res_safety_factor r = NaN \<and>
                 \<not> res_strength_ok r)"
    by auto
  have th: "total_hours ?a = 200000" by (simp add: total_hours_def)
  from r obtain sa where c: "compute ?a sa = Inr r"
    using run_Rendered(2) by blast
  have "0 \<le> formula_D_m ?a * (in_s ?a - in_c ?a)" by (simp add: formula_D_m_def)
  from calc_denominator_represents [OF this]
  have "represents (res_denominator r) (formula_denominator ?a)"
    using compute_fields(5,8) [OF c] by simp
  moreover have "formula_denominator ?a \<noteq> 0"
    by (simp add: formula_denominator_def formula_D_m_def)
  ultimately have d: "fne (res_denominator r) (Fin 0)"
    using represents_fne_zero by blast
  have "(in_d_a ?a - in_s_s ?a) * (in_s_s ?a - in_c ?a) < 0" by simp
  then have A: "\<exists>r. run griddata_linear ?a = Rendered 200000 r \<and>
        res_h_s r = NaN \<and> res_f_s r = NaN \<and> fne (res_denominator r) (Fin 0) \<and>
        res_sigma r = NaN \<and> res_safety_factor r = NaN \<and> \<not> res_strength_ok r"
    using r n d th by auto
  from interpolate_default_query obtain sb
    where sb: "interpolate_stress griddata_linear temperature_ranges stress_data_12x1mf 545 269142
                 = Inr (Some sb)" "27 \<le> sb" by blast
  have ib: "interpolate_stress griddata_linear temperature_ranges stress_data_12x1mf (in_T ?b)
             (real_of_int (total_hours ?b)) = Inr (Some sb)"
    using sb(1) by (simp add: total_hours_def default_inputs_def)
  have "0 < sb" "0 \<le> in_p ?b" "in_s ?b = in_c ?b" "total_hours ?b = 269142"
    using sb(2) by (simp_all add: default_inputs_def total_hours_def)
  with undefined_arithmetic_is_rendered [OF ib]
  have B: "\<exists>r. run griddata_linear ?b = Rendered 269142 r \<and>
        (\<forall>a. \<not> represents (res_sigma r) a)"
    by auto
  show ?thesis using A B by blast
qed

theorem negative_radicand_is_not_a_failure:
  "shown res_h_s (run griddata_linear
      \<lparr>in_D_a = 325, in_s = 38, in_d_a = 93, in_s_s = 21.5, in_p = 14, in_T = 540,
       in_operating_hours = 150000, in_planned_hours = 50000, in_c = 25\<rparr>) = Some NaN \<and>
   shown res_sigma (run griddata_linear
      \<lparr>in_D_a = 325, in_s = 38, in_d_a = 93, in_s_s = 21.5, in_p = 14, in_T = 540,
       in_operating_hours = 150000, in_planned_hours = 50000, in_c = 25\<rparr>) = Some NaN \<and>
   shown res_strength_ok (run griddata_linear
      \<lparr>in_D_a = 325, in_s = 38, in_d_a = 93, in_s_s = 21.5, in_p = 14, in_T = 540,
       in_operating_hours = 150000, in_planned_hours = 50000, in_c = 25\<rparr>) = Some False"
proof -
  let ?a = "\<lparr>in_D_a = 325, in_s = 38, in_d_a = 93, in_s_s = 21.5, in_p = 14, in_T = 540,
           in_operating_hours = 150000, in_planned_hours = 50000, in_c = 25\<rparr>"
  have ia: "interpolate_stress griddata_linear temperature_ranges stress_data_12x1mf (in_T ?a)
             (real_of_int (total_hours ?a)) = Inr (Some 62)"
    using interpolate_540_200000 by (simp add: total_hours_def)
  from undefined_arithmetic_rendered [OF ia] obtain r
    where r: "run griddata_linear ?a = Rendered (total_hours ?a) r"
      and n: "(in_d_a ?a - in_s_s ?a) * (in_s_s ?a - in_c ?a) < 0 \<longrightarrow>
              res_h_s r = NaN \<and> res_f_s r = NaN \<and>
              (fne (res_denominator r) (Fin 0) \<longrightarrow>
                 res_phi_oc r = NaN \<and> res_sigma r = NaN \<and> res_safety_factor r = NaN \<and>
                 \<not> res_strength_ok r)"
    by auto
  from r obtain sa where c: "compute ?a sa = Inr r"
    using run_Rendered(2) by blast
  have "0 \<le> formula_D_m ?a * (in_s ?a - in_c ?a)" by (simp add: formula_D_m_def)
  from calc_denominator_represents [OF this]
  have "represents (res_denominator r) (formula_denominator ?a)"
    using compute_fields(5,8) [OF c] by simp
  moreover have "formula_denominator ?a \<noteq> 0"
    by (simp add: formula_denominator_def formula_D_m_def)
  ultimately have d: "fne (res_denominator r) (Fin 0)"
    using represents_fne_zero by blast
  have "(in_d_a ?a - in_s_s ?a) * (in_s_s ?a - in_c ?a) < 0" by simp
  then show ?thesis using r n d by simp
qed

text \<open>
  C7. Step 4 computes \<open>f_s = 2 * h_s * ((s_s - c) - s_os)\<close>, and this value, negative or
  not, is the one that step 6 uses for \<^verbatim>\<open>phi_oc\<close>, from which steps 7 and 8 follow: it is
  not clamped or replaced.
\<close>

theorem step4_f_s_passed_unmodified:
  assumes "run g inp = Rendered th r"
  shows "res_f_s r = fmul (fmul (Fin 2) (res_h_s r))
                       (fsub (fsub (Fin (in_s_s inp)) (Fin (in_c inp))) (res_s_os r)) \<and>
         res_phi_oc r =
           (if fne (res_denominator r) (Fin 0)
            then fmul (res_phi_od r) (fadd (Fin 1) (fdiv (res_f_s r) (res_denominator r)))
            else res_phi_od r) \<and>
         res_sigma r = calc_sigma inp (res_phi_oc r) \<and>
         res_safety_factor r = calc_safety_factor (res_sigma_allowable r) (res_sigma r) \<and>
         (\<forall>h x. represents (res_h_s r) h \<longrightarrow> represents (res_s_os r) x \<longrightarrow>
            represents (res_f_s r) (2 * h * ((in_s_s inp - in_c inp) - x)))"
proof -
  from run_Rendered(2) [OF assms] obtain sa where c: "compute inp sa = Inr r" by blast
  note f = compute_fields [OF c]
  have a: "res_f_s r = fmul (fmul (Fin 2) (res_h_s r))
                       (fsub (fsub (Fin (in_s_s inp)) (Fin (in_c inp))) (res_s_os r))"
    using f(4) by (simp only: calc_f_s_def)
  have b: "res_phi_oc r =
           (if fne (res_denominator r) (Fin 0)
            then fmul (res_phi_od r) (fadd (Fin 1) (fdiv (res_f_s r) (res_denominator r)))
            else res_phi_od r)"
    using f(9) by (simp only: calc_phi_oc_def)
  have d: "res_safety_factor r = calc_safety_factor (res_sigma_allowable r) (res_sigma r)"
    using f(2,11) by simp
  have e: "represents (res_f_s r) (2 * h * ((in_s_s inp - in_c inp) - x))"
    if "represents (res_h_s r) h" "represents (res_s_os r) x" for h x
    using calc_f_s_represents [OF that] f(4) by simp
  show ?thesis using a b f(10) d e by blast
qed


theorem step4_f_s_passed_unmodified_witness:
  "\<exists>r h x. run griddata_linear (default_inputs\<lparr>in_s_s := 2\<rparr>) = Rendered 269142 r \<and>
       represents (res_h_s r) h \<and> represents (res_s_os r) x \<and>
       represents (res_f_s r) (2 * h * ((2 - 0) - x)) \<and> 2 * h * ((2 - 0) - x) < 0 \<and>
       res_phi_oc r =
         (if fne (res_denominator r) (Fin 0)
          then fmul (res_phi_od r) (fadd (Fin 1) (fdiv (res_f_s r) (res_denominator r)))
          else res_phi_od r)"
proof -
  let ?inp = "default_inputs\<lparr>in_s_s := 2\<rparr>"
  have fields: "in_T ?inp = 545" "total_hours ?inp = 269142" "0 \<le> in_p ?inp"
    by (simp_all add: default_inputs_def total_hours_def)
  from run_renders [OF fields] obtain sa r
    where sa: "27 \<le> sa" "sa \<le> 173" and c: "compute ?inp sa = Inr r"
      and r: "run griddata_linear ?inp = Rendered 269142 r" by blast
  note f = compute_fields [OF c]
  have "0 \<le> (in_d_a ?inp - in_s_s ?inp) * (in_s_s ?inp - in_c ?inp)"
    by (simp add: default_inputs_def)
  from calc_h_s_represents [OF this] have h: "represents (res_h_s r) (formula_h_s ?inp)"
    using f(3) by simp
  from calc_s_os_defined [of sa ?inp] sa fields(3) f(1)
  have x: "represents (res_s_os r) (formula_s_os ?inp sa)" by auto
  have hp: "0 < formula_h_s ?inp"
    by (simp add: formula_h_s_def default_inputs_def)
  have "2 * (2 * sa * 1 + 14) < 14 * 93" using sa by simp
  then have "2 < 14 * 93 / (2 * sa * 1 + 14)"
    using sa by (simp add: less_divide_eq)
  then have xb: "(2 - 0) - formula_s_os ?inp sa < 0"
    by (simp add: formula_s_os_def default_inputs_def)
  have neg: "2 * formula_h_s ?inp * ((2 - 0) - formula_s_os ?inp sa) < 0"
    using hp xb by (intro mult_pos_neg) simp_all
  from step4_f_s_passed_unmodified [OF r]
  have "represents (res_f_s r) (2 * formula_h_s ?inp * ((in_s_s ?inp - in_c ?inp)
          - formula_s_os ?inp sa))"
    and "res_phi_oc r =
         (if fne (res_denominator r) (Fin 0)
          then fmul (res_phi_od r) (fadd (Fin 1) (fdiv (res_f_s r) (res_denominator r)))
          else res_phi_od r)"
    using h x by blast+
  moreover have "in_s_s ?inp - in_c ?inp = 2 - 0" by (simp add: default_inputs_def)
  ultimately show ?thesis using r h x neg by auto
qed

text \<open>
  C8. With \<open>p = 0\<close>, a determined allowable stress and inputs in the domain of the formulas
  (a main pipe wider than its wall, a wall thicker than the corrosion allowance, a branch
  at least as wide as its wall, which is at least the allowance), \<^verbatim>\<open>s_os\<close> and \<^verbatim>\<open>sigma\<close>
  are zero, the safety factor is the 0 of the fallback of step 8, and nothing is raised.
\<close>

theorem zero_pressure_gives_zero_sigma:
  assumes "interpolate_stress g temperature_ranges stress_data_12x1mf (in_T inp)
             (real_of_int (total_hours inp)) = Inr (Some sa)"
    and "valid_domain inp sa" and "in_p inp = 0"
  shows "\<exists>r. run g inp = Rendered (total_hours inp) r \<and> represents (res_s_os r) 0 \<and>
           represents (res_sigma r) 0 \<and> res_safety_factor r = Fin 0 \<and> res_strength_ok r"
  using assms by (rule zero_pressure_zero_sigma)

theorem zero_pressure_gives_zero_sigma_witness:
  "\<exists>r. run griddata_linear (default_inputs\<lparr>in_p := 0\<rparr>) = Rendered 269142 r \<and>
       represents (res_sigma r) 0 \<and> res_safety_factor r = Fin 0 \<and> res_strength_ok r"
proof -
  let ?b = "default_inputs\<lparr>in_p := 0\<rparr>"
  from interpolate_default_query obtain sb
    where sb: "interpolate_stress griddata_linear temperature_ranges stress_data_12x1mf 545 269142
                 = Inr (Some sb)" "27 \<le> sb" by blast
  have ib: "interpolate_stress griddata_linear temperature_ranges stress_data_12x1mf (in_T ?b)
             (real_of_int (total_hours ?b)) = Inr (Some sb)"
    using sb(1) by (simp add: total_hours_def default_inputs_def)
  have v: "valid_domain ?b sb" using sb(2) by (simp add: valid_domain_def default_inputs_def)
  have p: "in_p ?b = 0" by simp
  have "total_hours ?b = 269142" by (simp add: default_inputs_def total_hours_def)
  with zero_pressure_gives_zero_sigma [OF ib v p] show ?thesis by auto
qed

theorem zero_pressure_narrow_pipe_gives_NaN:
  "shown res_sigma (run griddata_linear
      \<lparr>in_D_a = 30, in_s = 38, in_d_a = 93, in_s_s = 21.5, in_p = 0, in_T = 540,
       in_operating_hours = 150000, in_planned_hours = 50000, in_c = 0\<rparr>) = Some NaN \<and>
   shown res_safety_factor (run griddata_linear
      \<lparr>in_D_a = 30, in_s = 38, in_d_a = 93, in_s_s = 21.5, in_p = 0, in_T = 540,
       in_operating_hours = 150000, in_planned_hours = 50000, in_c = 0\<rparr>) = Some NaN"
proof -
  let ?a = "\<lparr>in_D_a = 30, in_s = 38, in_d_a = 93, in_s_s = 21.5, in_p = 0, in_T = 540,
       in_operating_hours = 150000, in_planned_hours = 50000, in_c = 0\<rparr>"
  from compute_defined [of 62 ?a] obtain r where c: "compute ?a 62 = Inr r" by auto
  have r: "run griddata_linear ?a = Rendered 200000 r"
    using c by (intro run_at_540_200000) (simp_all add: total_hours_def)
  have "formula_D_m ?a * (in_s ?a - in_c ?a) < 0" by (simp add: formula_D_m_def)
  from negative_root_gives_NaN(5,6) [OF this c] show ?thesis using r by simp
qed




text \<open>
  C10. A stress that \<^verbatim>\<open>interpolate_stress\<close> returns lies between 27 and 173, the least and
  the greatest value of the table.
\<close>

theorem interpolate_stress_within_table_range:
  assumes "interpolate_stress griddata_linear temperature_ranges stress_data_12x1mf t h
             = Inr (Some v)"
  shows "27 \<le> v \<and> v \<le> 173 \<and> Min (set values_12x1mf) = 27 \<and> Max (set values_12x1mf) = 173"
  using interpolate_range_12x1mf [OF assms] values_12x1mf_extremes by simp

theorem interpolate_stress_within_table_range_witness:
  "\<exists>v. interpolate_stress griddata_linear temperature_ranges stress_data_12x1mf 545 269142
          = Inr (Some v) \<and> 27 \<le> v \<and> v \<le> 173"
proof -
  from interpolate_default_query obtain v
    where v: "interpolate_stress griddata_linear temperature_ranges stress_data_12x1mf 545 269142
                = Inr (Some v)" by blast
  from interpolate_stress_within_table_range [OF v] v show ?thesis by blast
qed


end
